theory Spec2Isabelle
  imports Main "HOL-Library.Multiset" "HOL-Library.Char_ord" "HOL-Library.List_Lexorder"
begin

section \<open>Paths and strings\<close>

text \<open>
  A \<^verbatim>\<open>pathlib.Path\<close> is modelled by the list of its components, outermost first. The
  organizer only ever joins a path with one more component (a category label or a
  file name taken from a directory listing), so \<^verbatim>\<open>p / c\<close> is \<open>p @ [c]\<close>.
  Strings are \<^typ>\<open>string\<close>, lists of bytes: a name is the byte string that the file system
  stores, and a character outside ASCII is the sequence of its UTF-8 bytes, none of which is
  an ASCII byte. \<^verbatim>\<open>rfind('.')\<close> and the slices of \<^verbatim>\<open>suffix\<close> and \<^verbatim>\<open>stem\<close> cut at the
  same places in the bytes as in the characters.
\<close>

type_synonym path = "string list"

definition join :: "path \<Rightarrow> string \<Rightarrow> path" where
  "join p c = p @ [c]"

definition parent :: "path \<Rightarrow> path" where
  "parent p = butlast p"

definition name :: "path \<Rightarrow> string" where
  \<comment> \<open>\<^verbatim>\<open>Path.name\<close>: the final component, the empty string for the root.\<close>
  "name p = (if p = [] then [] else last p)"

fun rfind :: "char \<Rightarrow> string \<Rightarrow> nat option" where
  \<comment> \<open>\<^verbatim>\<open>str.rfind\<close>: the index of the last occurrence; \<open>None\<close> stands for Python's \<open>-1\<close>.\<close>
  "rfind c [] = None"
| "rfind c (x # xs) =
     (case rfind c xs of
        Some i \<Rightarrow> Some (Suc i)
      | None \<Rightarrow> if x = c then Some 0 else None)"

definition suffix :: "path \<Rightarrow> string" where
  \<comment> \<open>\<^verbatim>\<open>PurePath.suffix\<close>: \<^verbatim>\<open>i = name.rfind('.')\<close>, then \<^verbatim>\<open>name[i:]\<close> if
      \<^verbatim>\<open>0 < i < len(name) - 1\<close>, else the empty string.\<close>
  "suffix p =
     (let n = name p in
      case rfind (CHR ''.'') n of
        None \<Rightarrow> []
      | Some i \<Rightarrow> if 0 < i \<and> int i < int (length n) - 1 then drop i n else [])"

definition stem :: "path \<Rightarrow> string" where
  \<comment> \<open>\<^verbatim>\<open>PurePath.stem\<close>: \<^verbatim>\<open>name[:i]\<close> under the same condition, else the whole name.\<close>
  "stem p =
     (let n = name p in
      case rfind (CHR ''.'') n of
        None \<Rightarrow> n
      | Some i \<Rightarrow> if 0 < i \<and> int i < int (length n) - 1 then take i n else n)"

definition char_lower :: "char \<Rightarrow> char" where
  \<comment> \<open>The upper-case ASCII letters go to their lower-case ones, every other character stays.\<close>
  "char_lower c =
     (case map_of (zip ''ABCDEFGHIJKLMNOPQRSTUVWXYZ'' ''abcdefghijklmnopqrstuvwxyz'') c of
        Some l \<Rightarrow> l
      | None \<Rightarrow> c)"

definition kelvin_sign :: string where
  \<comment> \<open>U+212A KELVIN SIGN, in UTF-8\<close>
  "kelvin_sign = [CHR 0xE2, CHR 0x84, CHR 0xAA]"

fun str_lower :: "string \<Rightarrow> string" where
  \<comment> \<open>\<^verbatim>\<open>str.lower\<close>. The Kelvin sign is the one character outside ASCII whose lower case
      is an ASCII letter. The other characters outside ASCII are left as they are:
      \<^verbatim>\<open>str.lower\<close> maps each of them to characters outside ASCII again, so that no
      extension of the table, which are ASCII, is reached or missed through them.\<close>
  "str_lower (a # b # c # s) =
     (if [a, b, c] = kelvin_sign then CHR ''k'' # str_lower s
      else char_lower a # str_lower (b # c # s))"
| "str_lower (a # s) = char_lower a # str_lower s"
| "str_lower [] = []"


section \<open>The classifier\<close>

definition FILE_CATEGORIES :: "(string \<times> string list) list" where
  \<comment> \<open>The dictionary literal, in declaration order (a Python dict iterates in insertion order).\<close>
  "FILE_CATEGORIES =
    [(''Images'', [''.jpg'', ''.jpeg'', ''.png'', ''.gif'', ''.bmp'', ''.svg'', ''.webp'', ''.ico'', ''.tiff'']),
     (''Videos'', [''.mp4'', ''.avi'', ''.mkv'', ''.mov'', ''.wmv'', ''.flv'', ''.webm'', ''.m4v'', ''.mpg'', ''.mpeg'']),
     (''Documents'', [''.pdf'', ''.doc'', ''.docx'', ''.txt'', ''.odt'', ''.xls'', ''.xlsx'', ''.ppt'', ''.pptx'']),
     (''Music'', [''.mp3'', ''.wav'', ''.flac'', ''.aac'', ''.ogg'', ''.wma'', ''.m4a'', ''.opus'']),
     (''Archives'', [''.zip'', ''.rar'', ''.7z'', ''.tar'', ''.gz'', ''.bz2'', ''.xz'']),
     (''Code'', [''.py'', ''.js'', ''.html'', ''.css'', ''.cpp'', ''.java'', ''.c'', ''.h'', ''.json'', ''.xml'', ''.sql'']),
     (''Executables'', [''.exe'', ''.msi'', ''.app'', ''.deb'', ''.rpm'']),
     (''Data'', [''.csv'', ''.json'', ''.xml'', ''.sql'', ''.db'', ''.sqlite''])]"

fun scan :: "(string \<times> string list) list \<Rightarrow> string \<Rightarrow> string" where
  \<comment> \<open>The \<^verbatim>\<open>for category, extensions in ....items()\<close> loop with its early return.\<close>
  "scan [] extension = ''Others''"
| "scan ((category, extensions) # rest) extension =
     (if extension \<in> set extensions then category else scan rest extension)"

definition get_file_category :: "path \<Rightarrow> string" where
  "get_file_category file_path = scan FILE_CATEGORIES (str_lower (suffix file_path))"


section \<open>The file system\<close>

text \<open>
  The part of the operating system that \<^verbatim>\<open>organize_files\<close> touches: a table from
  paths to nodes, in directory-listing order. A node is a regular file with its content
  or a directory with its write permission. There are no symbolic links and one device;
  regular files are readable and writable. The operations follow the POSIX behaviour of
  \<^verbatim>\<open>pathlib\<close>, \<^verbatim>\<open>os\<close> and \<^verbatim>\<open>shutil\<close>; the exception a call raises is a value.
\<close>

datatype node = File string | Dir bool

type_synonym filesystem = "(path \<times> node) list"

datatype exn =
    FileNotFoundError path
  | NotADirectoryError path
  | FileExistsError path
  | IsADirectoryError path
  | PermissionError path
  | SameFileError path
  | ShutilError path  \<comment> \<open>\<^verbatim>\<open>shutil.Error("Destination path '...' already exists")\<close>\<close>
  | UnicodeEncodeError string  \<comment> \<open>raised by \<^verbatim>\<open>print\<close>; the argument is the name of the encoding\<close>

definition lookup :: "filesystem \<Rightarrow> path \<Rightarrow> node option" where
  "lookup fs p = map_of fs p"

definition exists :: "filesystem \<Rightarrow> path \<Rightarrow> bool" where
  "exists fs p = (lookup fs p \<noteq> None)"

definition is_file :: "filesystem \<Rightarrow> path \<Rightarrow> bool" where
  "is_file fs p = (case lookup fs p of Some (File _) \<Rightarrow> True | _ \<Rightarrow> False)"

definition is_dir :: "filesystem \<Rightarrow> path \<Rightarrow> bool" where
  "is_dir fs p = (case lookup fs p of Some (Dir _) \<Rightarrow> True | _ \<Rightarrow> False)"

definition writable :: "filesystem \<Rightarrow> path \<Rightarrow> bool" where
  \<comment> \<open>entries may be added to and removed from the directory \<open>p\<close>\<close>
  "writable fs p = (lookup fs p = Some (Dir True))"

definition remove :: "filesystem \<Rightarrow> path \<Rightarrow> filesystem" where
  "remove fs p = filter (\<lambda>(q, _). q \<noteq> p) fs"

definition put :: "filesystem \<Rightarrow> path \<Rightarrow> node \<Rightarrow> filesystem" where
  "put fs p n = remove fs p @ [(p, n)]"

definition iterdir :: "filesystem \<Rightarrow> path \<Rightarrow> exn + path list" where
  \<comment> \<open>\<^verbatim>\<open>Path.iterdir\<close>: the children of a directory, in listing order.\<close>
  "iterdir fs d =
     (case lookup fs d of
        None \<Rightarrow> Inl (FileNotFoundError d)
      | Some (File _) \<Rightarrow> Inl (NotADirectoryError d)
      | Some (Dir _) \<Rightarrow> Inr [p \<leftarrow> remdups (map fst fs). p \<noteq> [] \<and> parent p = d])"

definition mkdir_exist_ok :: "filesystem \<Rightarrow> path \<Rightarrow> exn + filesystem" where
  \<comment> \<open>\<^verbatim>\<open>Path.mkdir(exist_ok=True)\<close>, \<^verbatim>\<open>parents=False\<close>: an existing directory is accepted,
      anything else in the way, a missing parent or a read-only parent raises.\<close>
  "mkdir_exist_ok fs p =
     (if is_dir fs p then Inr fs
      else if exists fs p then Inl (FileExistsError p)
      else case lookup fs (parent p) of
             None \<Rightarrow> Inl (FileNotFoundError p)
           | Some (File _) \<Rightarrow> Inl (NotADirectoryError p)
           | Some (Dir w) \<Rightarrow> if w then Inr (put fs p (Dir True)) else Inl (PermissionError p))"

definition os_rename :: "filesystem \<Rightarrow> path \<Rightarrow> path \<Rightarrow> exn + filesystem" where
  \<comment> \<open>\<^verbatim>\<open>os.rename\<close> of a regular file: atomic, replaces a regular file at \<open>dst\<close>, needs
      write permission on both parent directories.\<close>
  "os_rename fs src dst =
     (case lookup fs src of
        None \<Rightarrow> Inl (FileNotFoundError src)
      | Some (Dir _) \<Rightarrow> Inl (IsADirectoryError src)
      | Some (File content) \<Rightarrow>
          if src = dst then Inr fs
          else case lookup fs (parent dst) of
                 None \<Rightarrow> Inl (FileNotFoundError dst)
               | Some (File _) \<Rightarrow> Inl (NotADirectoryError dst)
               | Some (Dir w) \<Rightarrow>
                   if is_dir fs dst then Inl (IsADirectoryError dst)
                   else if \<not> (w \<and> writable fs (parent src)) then Inl (PermissionError dst)
                   else Inr (put (remove fs src) dst (File content)))"

definition copy2 :: "filesystem \<Rightarrow> path \<Rightarrow> path \<Rightarrow> exn + filesystem" where
  \<comment> \<open>\<^verbatim>\<open>shutil.copy2\<close> of a regular file onto a path that is not a directory: an
      existing regular file is overwritten, a new one needs a writable parent.\<close>
  "copy2 fs src dst =
     (case lookup fs src of
        None \<Rightarrow> Inl (FileNotFoundError src)
      | Some (Dir _) \<Rightarrow> Inl (IsADirectoryError src)
      | Some (File content) \<Rightarrow>
          if src = dst then Inl (SameFileError src)
          else if is_dir fs dst then Inl (IsADirectoryError dst)
          else if is_file fs dst then Inr (put fs dst (File content))
          else case lookup fs (parent dst) of
                 None \<Rightarrow> Inl (FileNotFoundError dst)
               | Some (File _) \<Rightarrow> Inl (NotADirectoryError dst)
               | Some (Dir w) \<Rightarrow>
                   if w then Inr (put fs dst (File content)) else Inl (PermissionError dst))"

definition os_unlink :: "filesystem \<Rightarrow> path \<Rightarrow> exn + filesystem" where
  "os_unlink fs p =
     (case lookup fs p of
        None \<Rightarrow> Inl (FileNotFoundError p)
      | Some (Dir _) \<Rightarrow> Inl (IsADirectoryError p)
      | Some (File _) \<Rightarrow>
          if writable fs (parent p) then Inr (remove fs p) else Inl (PermissionError p))"

definition shutil_move :: "filesystem \<Rightarrow> path \<Rightarrow> path \<Rightarrow> exn option \<times> filesystem" where
  \<comment> \<open>\<^verbatim>\<open>shutil.move\<close> of a regular file. A directory at \<open>dst\<close> receives the file under its
      own name and refuses an occupant; else \<^verbatim>\<open>os.rename\<close>, and when that raises
      \<^verbatim>\<open>OSError\<close>, \<^verbatim>\<open>copy2\<close> followed by \<^verbatim>\<open>os.unlink\<close>. The result is the exception
      raised, if any, and the file system left behind. (The directory branch of
      \<^verbatim>\<open>shutil.move\<close> is not modelled: \<^verbatim>\<open>organize_files\<close> moves regular files only.)\<close>
  "shutil_move fs src dst =
     (let real_dst = (if is_dir fs dst then join dst (name src) else dst) in
      if is_dir fs dst \<and> exists fs real_dst then (Some (ShutilError real_dst), fs)
      else case os_rename fs src real_dst of
             Inr fs' \<Rightarrow> (None, fs')
           | Inl _ \<Rightarrow>
               (case copy2 fs src real_dst of
                  Inl e \<Rightarrow> (Some e, fs)
                | Inr fs1 \<Rightarrow>
                    (case os_unlink fs1 src of
                       Inl e \<Rightarrow> (Some e, fs1)
                     | Inr fs2 \<Rightarrow> (None, fs2))))"


section \<open>Timestamps\<close>

record datetime =
  year :: nat
  month :: nat
  day :: nat
  hour :: nat
  minute :: nat
  second :: nat

definition digit :: "nat \<Rightarrow> char" where
  "digit d = ''0123456789'' ! (d mod 10)"

definition pad2 :: "nat \<Rightarrow> string" where
  "pad2 n = [digit (n div 10), digit n]"

definition pad4 :: "nat \<Rightarrow> string" where
  "pad4 n = [digit (n div 1000), digit (n div 100), digit (n div 10), digit n]"

definition strftime :: "datetime \<Rightarrow> string" where
  \<comment> \<open>\<^verbatim>\<open>strftime("%Y%m%d_%H%M%S")\<close>\<close>
  "strftime t =
     pad4 (year t) @ pad2 (month t) @ pad2 (day t) @ ''_'' @
     pad2 (hour t) @ pad2 (minute t) @ pad2 (second t)"


section \<open>The organizer\<close>

record organizer =
  source_dir :: path
  destination_dir :: path
  moved_files :: "(string \<times> string) list"
  errors :: "(string \<times> exn) list"

definition init :: "path \<Rightarrow> path option \<Rightarrow> organizer" where
  \<comment> \<open>\<^verbatim>\<open>__init__\<close>; \<open>None\<close> is a falsy \<^verbatim>\<open>destination_dir\<close>.\<close>
  "init source destination =
     \<lparr>source_dir = source,
      destination_dir = (case destination of Some d \<Rightarrow> d | None \<Rightarrow> source),
      moved_files = [],
      errors = []\<rparr>"

text \<open>
  What is printed, one value per \<^verbatim>\<open>print\<close> call and without its layout; an error is
  recorded and printed as the exception itself instead of \<^verbatim>\<open>str(e)\<close>. In this section
  every line is printed and every path can be examined: it describes the run on a console
  that takes every line and a file system that answers every \<^verbatim>\<open>os.stat\<close>. The section
  after it adds the calls that fail.
\<close>

datatype line =
    SourceMissing path
  | Organizing bool path
  | Destination path
  | NoFiles
  | Moved string string
  | ErrorMoving string exn
  | WouldMove string string
  | Rule
  | DryRunComplete
  | OrganizationComplete
  | FilesMoved nat
  | Errors nat
  | ErrorItem string exn
  | FilesByCategory
  | CategoryCount string nat

record world =
  disk :: filesystem
  out :: "line list"

definition print :: "line list \<Rightarrow> world \<Rightarrow> world" where
  "print ls w = w\<lparr>out := out w @ ls\<rparr>"

datatype outcome = Normal | Raised exn

fun count_categories :: "(string \<times> string) list \<Rightarrow> (string \<times> nat) list \<Rightarrow> (string \<times> nat) list" where
  \<comment> \<open>the dictionary \<^verbatim>\<open>categories\<close> of \<^verbatim>\<open>print_summary\<close>, built in insertion order\<close>
  "count_categories [] categories = categories"
| "count_categories ((file_name, category) # rest) categories =
     count_categories rest
       (case map_of categories category of
          None \<Rightarrow> categories @ [(category, 1)]
        | Some k \<Rightarrow> map (\<lambda>(c, j). if c = category then (c, Suc k) else (c, j)) categories)"

definition print_summary :: "organizer \<Rightarrow> bool \<Rightarrow> world \<Rightarrow> world" where
  "print_summary org dry_run w =
     print
       ([Rule] @
        (if dry_run then [DryRunComplete]
         else [OrganizationComplete, FilesMoved (length (moved_files org))] @
              (if errors org \<noteq> []
               then Errors (length (errors org)) # map (\<lambda>(file_name, error). ErrorItem file_name error) (errors org)
               else [])) @
        (if moved_files org \<noteq> []
         then FilesByCategory #
              map (\<lambda>(category, count). CategoryCount category count)
                (sort_key fst (count_categories (moved_files org) []))
         else []))
       w"

definition unique_destination :: "datetime \<Rightarrow> filesystem \<Rightarrow> path \<Rightarrow> path \<Rightarrow> path" where
  \<comment> \<open>\<^verbatim>\<open>destination = category_dir / file_path.name\<close>, replaced when it exists by
      \<^verbatim>\<open>category_dir / f"{file_path.stem}_{timestamp}{file_path.suffix}"\<close>; \<open>now\<close> is what
      \<^verbatim>\<open>datetime.now()\<close> returns.\<close>
  "unique_destination now fs1 category_dir file_path =
     (let destination = join category_dir (name file_path) in
      if exists fs1 destination
      then join category_dir (stem file_path @ ''_'' @ strftime now @ suffix file_path)
      else destination)"

definition organize_one ::
  "datetime \<Rightarrow> bool \<Rightarrow> path \<times> string \<Rightarrow> organizer \<Rightarrow> world \<Rightarrow> outcome \<times> organizer \<times> world" where
  \<comment> \<open>The body of the second loop, for one \<^verbatim>\<open>(file_path, category)\<close>. The directory is
      created outside the \<^verbatim>\<open>try\<close>: what \<^verbatim>\<open>mkdir\<close> raises leaves the function; what
      \<^verbatim>\<open>shutil.move\<close> raises is recorded in \<^verbatim>\<open>errors\<close>.\<close>
  "organize_one now dry_run fc org w =
     (let file_path = fst fc; category = snd fc;
          category_dir = join (destination_dir org) category in
      if \<not> dry_run then
        (case mkdir_exist_ok (disk w) category_dir of
           Inl e \<Rightarrow> (Raised e, org, w)
         | Inr fs1 \<Rightarrow>
             (case shutil_move fs1 file_path (unique_destination now fs1 category_dir file_path) of
                (None, fs2) \<Rightarrow>
                  (Normal,
                   org\<lparr>moved_files := moved_files org @ [(name file_path, category)]\<rparr>,
                   \<lparr>disk = fs2, out = out w @ [Moved (name file_path) category]\<rparr>)
              | (Some e, fs2) \<Rightarrow>
                  (Normal,
                   org\<lparr>errors := errors org @ [(name file_path, e)]\<rparr>,
                   \<lparr>disk = fs2, out = out w @ [ErrorMoving (name file_path) e]\<rparr>)))
      else (Normal, org, print [WouldMove (name file_path) category] w))"

fun organize_loop ::
  "(nat \<Rightarrow> datetime) \<Rightarrow> bool \<Rightarrow> (path \<times> string) list \<Rightarrow> organizer \<Rightarrow> world \<Rightarrow>
     outcome \<times> organizer \<times> world" where
  \<comment> \<open>\<^verbatim>\<open>for file_path, category in files_to_organize\<close>; \<open>clock k\<close> is the time while the
      \<open>k\<close>-th remaining file is processed. An exception that is not caught ends the loop.\<close>
  "organize_loop clock dry_run [] org w = (Normal, org, w)"
| "organize_loop clock dry_run (fc # rest) org w =
     (case organize_one (clock 0) dry_run fc org w of
        (Raised e, org', w') \<Rightarrow> (Raised e, org', w')
      | (Normal, org', w') \<Rightarrow> organize_loop (clock \<circ> Suc) dry_run rest org' w')"

definition collect :: "filesystem \<Rightarrow> path list \<Rightarrow> (path \<times> string) list" where
  \<comment> \<open>the first loop: \<^verbatim>\<open>files_to_organize\<close>\<close>
  "collect fs items = [(item, get_file_category item). item \<leftarrow> items, is_file fs item]"

definition organize_files ::
  "(nat \<Rightarrow> datetime) \<Rightarrow> organizer \<Rightarrow> world \<Rightarrow> bool \<Rightarrow> outcome \<times> organizer \<times> world" where
  "organize_files clock org w dry_run =
     (if \<not> exists (disk w) (source_dir org) then
        (Normal, org, print [SourceMissing (source_dir org)] w)
      else
        let w1 = print [Organizing dry_run (source_dir org), Destination (destination_dir org)] w in
        case iterdir (disk w1) (source_dir org) of
          Inl e \<Rightarrow> (Raised e, org, w1)
        | Inr items \<Rightarrow>
            let files_to_organize = collect (disk w1) items in
            if files_to_organize = [] then (Normal, org, print [NoFiles] w1)
            else
              (case organize_loop clock dry_run files_to_organize org w1 of
                 (Raised e, org', w') \<Rightarrow> (Raised e, org', w')
               | (Normal, org', w') \<Rightarrow> (Normal, org', print_summary org' dry_run w')))"


section \<open>Calls that can fail\<close>

text \<open>
  The functions above describe a run in which the console takes every line and the
  operating system answers every question about a path. Neither is certain.
  \<^verbatim>\<open>print\<close> raises \<^verbatim>\<open>UnicodeEncodeError\<close> when the encoding of the output stream lacks a
  character of the line: the arrow and the two marks of the per-file lines are outside
  ASCII and outside code pages such as cp1252, and a file name can hold bytes that are
  not UTF-8.
  \<^verbatim>\<open>Path.exists\<close> and \<^verbatim>\<open>Path.is_file\<close> re-raise what \<^verbatim>\<open>os.stat\<close> raises, but for the
  errors of \<^verbatim>\<open>pathlib._ignore_error\<close>: a path below a directory without search permission
  gives \<^verbatim>\<open>PermissionError\<close>. An environment says which calls fail, and with which
  exception. The functions of this section are the ones above, with every call to the
  console and to the operating system asked of the environment first, and with the
  \<^verbatim>\<open>try\<close> statement around the move and the print that follows it.
\<close>

datatype call =
    Stat path  \<comment> \<open>\<^verbatim>\<open>os.stat\<close>, by \<^verbatim>\<open>Path.exists\<close> and \<^verbatim>\<open>Path.is_file\<close>\<close>
  | Listdir path  \<comment> \<open>\<^verbatim>\<open>os.listdir\<close>, by \<^verbatim>\<open>Path.iterdir\<close>\<close>
  | Mkdir path
  | Move path path
  | Print line

type_synonym environment = "call \<Rightarrow> exn option"

definition ignore_error :: "exn \<Rightarrow> bool" where
  \<comment> \<open>\<^verbatim>\<open>pathlib._ignore_error\<close>: \<^verbatim>\<open>ENOENT\<close> and \<^verbatim>\<open>ENOTDIR\<close> mean that the path is not there\<close>
  "ignore_error e =
     (case e of FileNotFoundError _ \<Rightarrow> True | NotADirectoryError _ \<Rightarrow> True | _ \<Rightarrow> False)"

definition exists_io :: "environment \<Rightarrow> filesystem \<Rightarrow> path \<Rightarrow> exn + bool" where
  \<comment> \<open>\<^verbatim>\<open>Path.exists\<close>\<close>
  "exists_io env fs p =
     (case env (Stat p) of
        None \<Rightarrow> Inr (exists fs p)
      | Some e \<Rightarrow> if ignore_error e then Inr False else Inl e)"

definition is_file_io :: "environment \<Rightarrow> filesystem \<Rightarrow> path \<Rightarrow> exn + bool" where
  \<comment> \<open>\<^verbatim>\<open>Path.is_file\<close>\<close>
  "is_file_io env fs p =
     (case env (Stat p) of
        None \<Rightarrow> Inr (is_file fs p)
      | Some e \<Rightarrow> if ignore_error e then Inr False else Inl e)"

definition iterdir_io :: "environment \<Rightarrow> filesystem \<Rightarrow> path \<Rightarrow> exn + path list" where
  "iterdir_io env fs d = (case env (Listdir d) of None \<Rightarrow> iterdir fs d | Some e \<Rightarrow> Inl e)"

definition mkdir_io :: "environment \<Rightarrow> filesystem \<Rightarrow> path \<Rightarrow> exn + filesystem" where
  "mkdir_io env fs p = (case env (Mkdir p) of None \<Rightarrow> mkdir_exist_ok fs p | Some e \<Rightarrow> Inl e)"

definition shutil_move_io ::
  "environment \<Rightarrow> filesystem \<Rightarrow> path \<Rightarrow> path \<Rightarrow> exn option \<times> filesystem" where
  "shutil_move_io env fs src dst =
     (case env (Move src dst) of None \<Rightarrow> shutil_move fs src dst | Some e \<Rightarrow> (Some e, fs))"

definition print_io :: "environment \<Rightarrow> line \<Rightarrow> world \<Rightarrow> exn + world" where
  \<comment> \<open>one call of \<^verbatim>\<open>print\<close>: the line is written, or nothing is and the call raises\<close>
  "print_io env l w = (case env (Print l) of None \<Rightarrow> Inr (print [l] w) | Some e \<Rightarrow> Inl e)"

fun print_all :: "environment \<Rightarrow> line list \<Rightarrow> world \<Rightarrow> exn option \<times> world" where
  \<comment> \<open>calls of \<^verbatim>\<open>print\<close> one after the other; the first that raises ends them\<close>
  "print_all env [] w = (None, w)"
| "print_all env (l # ls) w =
     (case print_io env l w of
        Inl e \<Rightarrow> (Some e, w)
      | Inr w1 \<Rightarrow> print_all env ls w1)"

definition summary :: "organizer \<Rightarrow> bool \<Rightarrow> line list" where
  \<comment> \<open>the lines of \<^verbatim>\<open>print_summary\<close>, in the order of its \<^verbatim>\<open>print\<close> calls\<close>
  "summary org dry_run =
     [Rule] @
     (if dry_run then [DryRunComplete]
      else [OrganizationComplete, FilesMoved (length (moved_files org))] @
           (if errors org \<noteq> []
            then Errors (length (errors org)) # map (\<lambda>(file_name, error). ErrorItem file_name error) (errors org)
            else [])) @
     (if moved_files org \<noteq> []
      then FilesByCategory #
           map (\<lambda>(category, count). CategoryCount category count)
             (sort_key fst (count_categories (moved_files org) []))
      else [])"

definition print_summary_io :: "environment \<Rightarrow> organizer \<Rightarrow> bool \<Rightarrow> world \<Rightarrow> exn option \<times> world" where
  "print_summary_io env org dry_run w = print_all env (summary org dry_run) w"

definition unique_destination_io ::
  "environment \<Rightarrow> datetime \<Rightarrow> filesystem \<Rightarrow> path \<Rightarrow> path \<Rightarrow> exn + path" where
  \<comment> \<open>lines 68 to 72; what \<^verbatim>\<open>destination.exists()\<close> raises is outside the \<^verbatim>\<open>try\<close>\<close>
  "unique_destination_io env now fs1 category_dir file_path =
     (let destination = join category_dir (name file_path) in
      case exists_io env fs1 destination of
        Inl e \<Rightarrow> Inl e
      | Inr occupied \<Rightarrow>
          Inr (if occupied
               then join category_dir (stem file_path @ ''_'' @ strftime now @ suffix file_path)
               else destination))"

definition except_handler ::
  "environment \<Rightarrow> path \<Rightarrow> exn \<Rightarrow> organizer \<Rightarrow> world \<Rightarrow> outcome \<times> organizer \<times> world" where
  \<comment> \<open>\<^verbatim>\<open>except Exception as e\<close>: the record is appended, then the error line is printed;
      what this \<^verbatim>\<open>print\<close> raises leaves the function\<close>
  "except_handler env file_path e org w =
     (let org1 = org\<lparr>errors := errors org @ [(name file_path, e)]\<rparr> in
      case print_io env (ErrorMoving (name file_path) e) w of
        Inl x \<Rightarrow> (Raised x, org1, w)
      | Inr w1 \<Rightarrow> (Normal, org1, w1))"

definition organize_one_io ::
  "environment \<Rightarrow> datetime \<Rightarrow> bool \<Rightarrow> path \<times> string \<Rightarrow> organizer \<Rightarrow> world \<Rightarrow>
     outcome \<times> organizer \<times> world" where
  \<comment> \<open>The body of the second loop. \<^verbatim>\<open>mkdir\<close> and \<^verbatim>\<open>exists\<close> are called outside the
      \<^verbatim>\<open>try\<close>. Inside it are the move, the append to \<^verbatim>\<open>moved_files\<close> and the print of
      the success line: what any of them raises goes to the handler, so that a file whose
      success line cannot be printed is moved and has a record in both lists.\<close>
  "organize_one_io env now dry_run fc org w =
     (let file_path = fst fc; category = snd fc;
          category_dir = join (destination_dir org) category in
      if \<not> dry_run then
        (case mkdir_io env (disk w) category_dir of
           Inl e \<Rightarrow> (Raised e, org, w)
         | Inr fs1 \<Rightarrow>
             (case unique_destination_io env now fs1 category_dir file_path of
                Inl e \<Rightarrow> (Raised e, org, w\<lparr>disk := fs1\<rparr>)
              | Inr destination \<Rightarrow>
                  (case shutil_move_io env fs1 file_path destination of
                     (None, fs2) \<Rightarrow>
                       (let org1 = org\<lparr>moved_files := moved_files org @ [(name file_path, category)]\<rparr>
                        in case print_io env (Moved (name file_path) category) (w\<lparr>disk := fs2\<rparr>) of
                             Inl e \<Rightarrow> except_handler env file_path e org1 (w\<lparr>disk := fs2\<rparr>)
                           | Inr w1 \<Rightarrow> (Normal, org1, w1))
                   | (Some e, fs2) \<Rightarrow> except_handler env file_path e org (w\<lparr>disk := fs2\<rparr>))))
      else
        (case print_io env (WouldMove (name file_path) category) w of
           Inl e \<Rightarrow> (Raised e, org, w)
         | Inr w1 \<Rightarrow> (Normal, org, w1)))"

fun organize_loop_io ::
  "environment \<Rightarrow> (nat \<Rightarrow> datetime) \<Rightarrow> bool \<Rightarrow> (path \<times> string) list \<Rightarrow> organizer \<Rightarrow> world \<Rightarrow>
     outcome \<times> organizer \<times> world" where
  "organize_loop_io env clock dry_run [] org w = (Normal, org, w)"
| "organize_loop_io env clock dry_run (fc # rest) org w =
     (case organize_one_io env (clock 0) dry_run fc org w of
        (Raised e, org', w') \<Rightarrow> (Raised e, org', w')
      | (Normal, org', w') \<Rightarrow> organize_loop_io env (clock \<circ> Suc) dry_run rest org' w')"

fun collect_io ::
  "environment \<Rightarrow> filesystem \<Rightarrow> path list \<Rightarrow> exn + (path \<times> string) list" where
  \<comment> \<open>the first loop; the first \<^verbatim>\<open>is_file\<close> that raises ends it\<close>
  "collect_io env fs [] = Inr []"
| "collect_io env fs (item # items) =
     (case is_file_io env fs item of
        Inl e \<Rightarrow> Inl e
      | Inr regular \<Rightarrow>
          (case collect_io env fs items of
             Inl e \<Rightarrow> Inl e
           | Inr files \<Rightarrow>
               Inr (if regular then (item, get_file_category item) # files else files)))"

definition organize_files_io ::
  "environment \<Rightarrow> (nat \<Rightarrow> datetime) \<Rightarrow> organizer \<Rightarrow> world \<Rightarrow> bool \<Rightarrow>
     outcome \<times> organizer \<times> world" where
  "organize_files_io env clock org w dry_run =
     (case exists_io env (disk w) (source_dir org) of
        Inl e \<Rightarrow> (Raised e, org, w)
      | Inr found \<Rightarrow>
          if \<not> found then
            (case print_io env (SourceMissing (source_dir org)) w of
               Inl e \<Rightarrow> (Raised e, org, w)
             | Inr w1 \<Rightarrow> (Normal, org, w1))
          else
            (case print_all env
                    [Organizing dry_run (source_dir org), Destination (destination_dir org)] w of
               (Some e, w1) \<Rightarrow> (Raised e, org, w1)
             | (None, w1) \<Rightarrow>
                 (case iterdir_io env (disk w1) (source_dir org) of
                    Inl e \<Rightarrow> (Raised e, org, w1)
                  | Inr items \<Rightarrow>
                      (case collect_io env (disk w1) items of
                         Inl e \<Rightarrow> (Raised e, org, w1)
                       | Inr files_to_organize \<Rightarrow>
                           if files_to_organize = [] then
                             (case print_io env NoFiles w1 of
                                Inl e \<Rightarrow> (Raised e, org, w1)
                              | Inr w2 \<Rightarrow> (Normal, org, w2))
                           else
                             (case organize_loop_io env clock dry_run files_to_organize org w1 of
                                (Raised e, org', w') \<Rightarrow> (Raised e, org', w')
                              | (Normal, org', w') \<Rightarrow>
                                  (case print_summary_io env org' dry_run w' of
                                     (Some e, w2) \<Rightarrow> (Raised e, org', w2)
                                   | (None, w2) \<Rightarrow> (Normal, org', w2)))))))"


section \<open>Example worlds\<close>

definition example_clock :: "nat \<Rightarrow> datetime" where
  "example_clock k = \<lparr>year = 2024, month = 1, day = 31, hour = 23, minute = 59, second = 59\<rparr>"

definition inbox_disk :: filesystem where
  \<comment> \<open>one file to organize, and a destination that already holds a file of its name\<close>
  "inbox_disk =
     [([''in''], Dir True),
      ([''in'', ''x.txt''], File ''new''),
      ([''out''], Dir True),
      ([''out'', ''Documents''], Dir True),
      ([''out'', ''Documents'', ''x.txt''], File ''old'')]"

definition readonly_disk :: filesystem where
  \<comment> \<open>as \<open>inbox_disk\<close>, with a read-only \<open>Documents\<close> directory\<close>
  "readonly_disk =
     [([''in''], Dir True),
      ([''in'', ''x.txt''], File ''new''),
      ([''out''], Dir True),
      ([''out'', ''Documents''], Dir False),
      ([''out'', ''Documents'', ''x.txt''], File ''old'')]"

definition three_disk :: filesystem where
  \<comment> \<open>three files; the second one goes to a read-only directory\<close>
  "three_disk =
     [([''in''], Dir True),
      ([''in'', ''a.png''], File ''A''),
      ([''in'', ''b.txt''], File ''B''),
      ([''in'', ''c.mp3''], File ''C''),
      ([''out''], Dir True),
      ([''out'', ''Documents''], Dir False)]"

definition blocked_disk :: filesystem where
  \<comment> \<open>three files; the first one goes to a read-only directory, and a regular file
      stands where the directory of the second one would be\<close>
  "blocked_disk =
     [([''in''], Dir True),
      ([''in'', ''a.txt''], File ''A''),
      ([''in'', ''b.png''], File ''B''),
      ([''in'', ''c.mp3''], File ''C''),
      ([''out''], Dir True),
      ([''out'', ''Documents''], Dir False),
      ([''out'', ''Images''], File ''not a directory'')]"

definition used_organizer :: organizer where
  \<comment> \<open>the organizer after it has organized \<open>inbox_disk\<close>\<close>
  "used_organizer =
     \<lparr>source_dir = [''in''], destination_dir = [''out''],
      moved_files = [(''x.txt'', ''Documents'')], errors = []\<rparr>"

definition refilled_disk :: filesystem where
  \<comment> \<open>the file system after that run, with a new file in the source\<close>
  "refilled_disk =
     [([''in''], Dir True),
      ([''out''], Dir True),
      ([''out'', ''Documents''], Dir True),
      ([''out'', ''Documents'', ''x.txt''], File ''old''),
      ([''out'', ''Documents'', ''x_20240131_235959.txt''], File ''new''),
      ([''in'', ''y.png''], File ''img'')]"

definition nested_disk :: filesystem where
  \<comment> \<open>as \<open>inbox_disk\<close>, with a directory where the renamed file would go\<close>
  "nested_disk =
     [([''in''], Dir True),
      ([''in'', ''x.txt''], File ''new''),
      ([''out''], Dir True),
      ([''out'', ''Documents''], Dir True),
      ([''out'', ''Documents'', ''x.txt''], File ''old''),
      ([''out'', ''Documents'', ''x_20240131_235959.txt''], Dir True)]"

definition no_failures :: environment where
  \<comment> \<open>every call succeeds\<close>
  "no_failures = (\<lambda>c. None)"

definition ascii_console :: environment where
  \<comment> \<open>an output stream with the ASCII encoding, over paths of ASCII names: the three
      per-file lines hold an arrow or a mark and cannot be encoded\<close>
  "ascii_console =
     (\<lambda>c. case c of
             Print (Moved _ _) \<Rightarrow> Some (UnicodeEncodeError ''ascii'')
           | Print (ErrorMoving _ _) \<Rightarrow> Some (UnicodeEncodeError ''ascii'')
           | Print (WouldMove _ _) \<Rightarrow> Some (UnicodeEncodeError ''ascii'')
           | _ \<Rightarrow> None)"

definition locked_documents :: environment where
  \<comment> \<open>the directory \<open>out/Documents\<close> has no search permission: nothing below it can be
      examined\<close>
  "locked_documents =
     (\<lambda>c. case c of
             Stat p \<Rightarrow> if take 2 p = [''out'', ''Documents''] \<and> 2 < length p
                       then Some (PermissionError p) else None
           | Move src dst \<Rightarrow> if take 2 dst = [''out'', ''Documents''] \<and> 2 < length dst
                       then Some (PermissionError dst) else None
           | _ \<Rightarrow> None)"


section \<open>The classifier: first match in declaration order\<close>

lemma scan_range: "scan tbl e \<in> insert ''Others'' (fst ` set tbl)"
  by (induction tbl e rule: scan.induct) auto

lemma scan_no_match:
  "(\<And>c exts. (c, exts) \<in> set tbl \<Longrightarrow> e \<notin> set exts) \<Longrightarrow> scan tbl e = ''Others''"
  by (induction tbl e rule: scan.induct) auto

lemma scan_first_match:
  "(\<And>c' exts'. (c', exts') \<in> set pre \<Longrightarrow> e \<notin> set exts') \<Longrightarrow> e \<in> set exts \<Longrightarrow>
   scan (pre @ (c, exts) # post) e = c"
  by (induction pre e rule: scan.induct) auto

lemma scan_only_match:
  assumes "(c, exts) \<in> set tbl" and "e \<in> set exts"
    and "\<And>c' exts'. (c', exts') \<in> set tbl \<Longrightarrow> e \<in> set exts' \<Longrightarrow> c' = c"
  shows "scan tbl e = c"
  using assms
proof (induction tbl e rule: scan.induct)
  case (1 extension)
  then show ?case by simp
next
  case (2 category extensions rest extension)
  show ?case
  proof (cases "extension \<in> set extensions")
    case True
    then have "category = c" using "2.prems"(3) [of category extensions] by simp
    with True show ?thesis by simp
  next
    case False
    then have "(c, exts) \<in> set rest" using "2.prems"(1,2) by auto
    moreover have "\<And>c' exts'. (c', exts') \<in> set rest \<Longrightarrow> extension \<in> set exts' \<Longrightarrow> c' = c"
      using "2.prems"(3) by (meson list.set_intros(2))
    ultimately have "scan rest extension = c" using "2.IH" False "2.prems"(2) by blast
    with False show ?thesis by simp
  qed
qed

text \<open>
  C5. An extension that is listed in exactly one category of the table is classified
  into that category, whatever the case of the letters of the file's suffix: the suffix
  is lower-cased before the table is searched.
\<close>

theorem get_file_category_unique_extension:
  assumes "(category, extensions) \<in> set FILE_CATEGORIES"
    and "e \<in> set extensions"
    and "\<forall>(c', exts') \<in> set FILE_CATEGORIES. e \<in> set exts' \<longrightarrow> c' = category"
    and "str_lower (suffix file_path) = e"
  shows "get_file_category file_path = category"
  unfolding get_file_category_def assms(4)
  by (rule scan_only_match [OF assms(1,2)]) (use assms(3) in auto)

theorem get_file_category_unique_extension_witness:
  "get_file_category [''home'', ''kea'', ''Holiday.JPG''] = ''Images''
   \<and> get_file_category [''home'', ''kea'', ''holiday.jpg''] = ''Images''"
proof -
  let ?exts = "[''.jpg'', ''.jpeg'', ''.png'', ''.gif'', ''.bmp'', ''.svg'', ''.webp'', ''.ico'', ''.tiff'']"
  have h1: "(''Images'', ?exts) \<in> set FILE_CATEGORIES"
    by (simp add: FILE_CATEGORIES_def)
  have h2: "''.jpg'' \<in> set ?exts" by simp
  have h3: "\<forall>(c', exts') \<in> set FILE_CATEGORIES. ''.jpg'' \<in> set exts' \<longrightarrow> c' = ''Images''"
    by (simp add: FILE_CATEGORIES_def)
  have h4: "str_lower (suffix [''home'', ''kea'', ''Holiday.JPG'']) = ''.jpg''"
    by (simp add: kelvin_sign_def char_lower_def suffix_def name_def)
  have h5: "str_lower (suffix [''home'', ''kea'', ''holiday.jpg'']) = ''.jpg''"
    by (simp add: kelvin_sign_def char_lower_def suffix_def name_def)
  show ?thesis
    using get_file_category_unique_extension [OF h1 h2 h3 h4]
      get_file_category_unique_extension [OF h1 h2 h3 h5]
    by simp
qed

text \<open>
  C6. An extension that no category of the table lists is classified as \<open>Others\<close>, and
  the classifier always returns a label: a key of the table or \<open>Others\<close>.
\<close>

theorem get_file_category_others:
  "((\<forall>(c, exts) \<in> set FILE_CATEGORIES. str_lower (suffix file_path) \<notin> set exts)
      \<longrightarrow> get_file_category file_path = ''Others'')
   \<and> get_file_category file_path \<in> insert ''Others'' (fst ` set FILE_CATEGORIES)"
proof -
  have "get_file_category file_path = ''Others''"
    if "\<forall>(c, exts) \<in> set FILE_CATEGORIES. str_lower (suffix file_path) \<notin> set exts"
    unfolding get_file_category_def
    by (rule scan_no_match) (use that in auto)
  moreover have "get_file_category file_path \<in> insert ''Others'' (fst ` set FILE_CATEGORIES)"
    unfolding get_file_category_def by (rule scan_range)
  ultimately show ?thesis by blast
qed

theorem get_file_category_others_witness:
  "get_file_category [''home'', ''kea'', ''data.xyz''] = ''Others''"
proof -
  have s: "str_lower (suffix [''home'', ''kea'', ''data.xyz'']) = ''.xyz''"
    by (simp add: kelvin_sign_def char_lower_def suffix_def name_def)
  have h: "\<forall>(c, exts) \<in> set FILE_CATEGORIES. str_lower (suffix [''home'', ''kea'', ''data.xyz'']) \<notin> set exts"
    unfolding s by (simp add: FILE_CATEGORIES_def)
  show ?thesis
    using h get_file_category_others [of "[''home'', ''kea'', ''data.xyz'']"] by blast
qed

text \<open>
  The suffix is lower-cased as \<^verbatim>\<open>str.lower\<close> does it: the Kelvin sign becomes the letter
  \<open>k\<close>, so that a name ending in \<open>.m\<close>, the Kelvin sign and \<open>v\<close> is a video.
\<close>

lemma kelvin_sign_example:
  "str_lower (suffix [''movie.m'' @ kelvin_sign @ ''v'']) = ''.mkv''
   \<and> get_file_category [''movie.m'' @ kelvin_sign @ ''v''] = ''Videos''
   \<and> get_file_category [''movie.MKV''] = ''Videos''"
  by code_simp

text \<open>
  C7. The table is searched in declaration order and the first category that lists the
  extension wins. \<open>.json\<close>, \<open>.xml\<close> and \<open>.sql\<close> are listed under \<open>Code\<close> and under
  \<open>Data\<close>, in this order and nowhere else, so they are always classified as \<open>Code\<close>.
\<close>

theorem get_file_category_first_declared:
  "(FILE_CATEGORIES = pre @ (category, extensions) # post
      \<and> str_lower (suffix file_path) \<in> set extensions
      \<and> (\<forall>(c', exts') \<in> set pre. str_lower (suffix file_path) \<notin> set exts')
      \<longrightarrow> get_file_category file_path = category)
   \<and> (str_lower (suffix file_path) \<in> {''.json'', ''.xml'', ''.sql''}
      \<longrightarrow> get_file_category file_path = ''Code'')
   \<and> map fst [c \<leftarrow> FILE_CATEGORIES. ''.json'' \<in> set (snd c)] = [''Code'', ''Data'']
   \<and> map fst [c \<leftarrow> FILE_CATEGORIES. ''.xml'' \<in> set (snd c)] = [''Code'', ''Data'']
   \<and> map fst [c \<leftarrow> FILE_CATEGORIES. ''.sql'' \<in> set (snd c)] = [''Code'', ''Data'']"
proof -
  have first: "get_file_category file_path = category"
    if "FILE_CATEGORIES = pre @ (category, extensions) # post"
      and "str_lower (suffix file_path) \<in> set extensions"
      and "\<forall>(c', exts') \<in> set pre. str_lower (suffix file_path) \<notin> set exts'"
    unfolding get_file_category_def that(1)
    by (rule scan_first_match) (use that(2,3) in auto)
  have code: "get_file_category file_path = ''Code''"
    if "str_lower (suffix file_path) \<in> {''.json'', ''.xml'', ''.sql''}"
    using that unfolding get_file_category_def
    by (auto simp: FILE_CATEGORIES_def)
  have "map fst [c \<leftarrow> FILE_CATEGORIES. ''.json'' \<in> set (snd c)] = [''Code'', ''Data'']"
    by (simp add: FILE_CATEGORIES_def)
  moreover have "map fst [c \<leftarrow> FILE_CATEGORIES. ''.xml'' \<in> set (snd c)] = [''Code'', ''Data'']"
    by (simp add: FILE_CATEGORIES_def)
  moreover have "map fst [c \<leftarrow> FILE_CATEGORIES. ''.sql'' \<in> set (snd c)] = [''Code'', ''Data'']"
    by (simp add: FILE_CATEGORIES_def)
  ultimately show ?thesis using first code by blast
qed

theorem get_file_category_first_declared_witness:
  "str_lower (suffix [''srv'', ''dump.SQL'']) \<in> {''.json'', ''.xml'', ''.sql''}
   \<and> get_file_category [''srv'', ''dump.SQL''] = ''Code''
   \<and> get_file_category [''srv'', ''notes.txt''] = ''Documents''"
proof -
  have s: "str_lower (suffix [''srv'', ''dump.SQL'']) = ''.sql''"
    by (simp add: kelvin_sign_def char_lower_def suffix_def name_def)
  have t: "str_lower (suffix [''srv'', ''notes.txt'']) = ''.txt''"
    by (simp add: kelvin_sign_def char_lower_def suffix_def name_def)
  let ?pre = "take 2 FILE_CATEGORIES"
  let ?exts = "[''.pdf'', ''.doc'', ''.docx'', ''.txt'', ''.odt'', ''.xls'', ''.xlsx'', ''.ppt'', ''.pptx'']"
  let ?post = "drop 3 FILE_CATEGORIES"
  have a: "FILE_CATEGORIES = ?pre @ (''Documents'', ?exts) # ?post"
    by (simp add: FILE_CATEGORIES_def)
  have b: "str_lower (suffix [''srv'', ''notes.txt'']) \<in> set ?exts"
    unfolding t by simp
  have c: "\<forall>(c', exts') \<in> set ?pre. str_lower (suffix [''srv'', ''notes.txt'']) \<notin> set exts'"
    unfolding t by (simp add: FILE_CATEGORIES_def)
  have m: "str_lower (suffix [''srv'', ''dump.SQL'']) \<in> {''.json'', ''.xml'', ''.sql''}"
    unfolding s by simp
  have "get_file_category [''srv'', ''dump.SQL''] = ''Code''"
    using m get_file_category_first_declared [of pre category extensions post "[''srv'', ''dump.SQL'']"]
    by blast
  moreover have "get_file_category [''srv'', ''notes.txt''] = ''Documents''"
    using a b c
      get_file_category_first_declared [of ?pre "''Documents''" ?exts ?post "[''srv'', ''notes.txt'']"]
    by blast
  ultimately show ?thesis using m by blast
qed

text \<open>
  C9. The category is a function of the lower-cased suffix alone: two paths with the
  same lower-cased suffix get the same category, whatever their names and directories,
  and the snapshot of the organizer pairs every file with a category that does not
  depend on what the files contain.
\<close>

theorem get_file_category_extension_only:
  "(str_lower (suffix p) = str_lower (suffix q) \<longrightarrow> get_file_category p = get_file_category q)
   \<and> ((\<forall>item \<in> set items. is_file fs1 item = is_file fs2 item)
        \<longrightarrow> collect fs1 items = collect fs2 items)
   \<and> map snd (collect fs1 items) = map get_file_category (map fst (collect fs1 items))"
proof -
  have "collect fs1 items = collect fs2 items"
    if "\<forall>item \<in> set items. is_file fs1 item = is_file fs2 item"
    using that unfolding collect_def by (induction items) auto
  moreover have "map snd (collect fs1 items) = map get_file_category (map fst (collect fs1 items))"
    unfolding collect_def by (induction items) auto
  ultimately show ?thesis by (simp add: get_file_category_def)
qed

theorem get_file_category_extension_only_witness:
  "str_lower (suffix [''home'', ''kea'', ''Holiday.JPG'']) = str_lower (suffix [''tmp'', ''x.jpg''])
   \<and> get_file_category [''home'', ''kea'', ''Holiday.JPG''] = get_file_category [''tmp'', ''x.jpg'']
   \<and> collect [([''in'', ''a.txt''], File ''one'')] [[''in'', ''a.txt'']]
       = collect [([''in'', ''a.txt''], File ''two'')] [[''in'', ''a.txt'']]"
proof -
  let ?p = "[''home'', ''kea'', ''Holiday.JPG'']" and ?q = "[''tmp'', ''x.jpg'']"
  let ?fs1 = "[([''in'', ''a.txt''], File ''one'')]" and ?fs2 = "[([''in'', ''a.txt''], File ''two'')]"
  let ?items = "[[''in'', ''a.txt'']]"
  have h1: "str_lower (suffix ?p) = str_lower (suffix ?q)"
    by (simp add: kelvin_sign_def char_lower_def suffix_def name_def)
  have h2: "\<forall>item \<in> set ?items. is_file ?fs1 item = is_file ?fs2 item"
    by (simp add: is_file_def lookup_def)
  show ?thesis
    using h1 h2 get_file_category_extension_only [of ?p ?q ?items ?fs1 ?fs2] by blast
qed


section \<open>The file system operations and the loop\<close>

lemma lookup_remove: "lookup (remove fs p) q = (if q = p then None else lookup fs q)"
  by (induction fs) (auto simp: lookup_def remove_def)

lemma lookup_put: "lookup (put fs p n) q = (if q = p then Some n else lookup fs q)"
proof -
  have "map_of (remove fs p @ [(p, n)]) q = (if q = p then Some n else map_of fs q)"
    using lookup_remove [of fs p q]
    by (auto simp: lookup_def map_add_def split: option.splits)
  then show ?thesis by (simp add: put_def lookup_def)
qed

lemma disk_print: "disk (print ls w) = disk w"
  by (simp add: print_def)

lemma out_print: "out (print ls w) = out w @ ls"
  by (simp add: print_def)

lemma print_print: "print b (print a w) = print (a @ b) w"
  by (simp add: print_def)

lemma shutil_move_failure_keeps_source:
  assumes "shutil_move fs src dst = (Some e, fs')"
  shows "lookup fs' src = lookup fs src"
  using assms
  by (auto simp: shutil_move_def Let_def copy2_def os_unlink_def lookup_put
      split: if_splits sum.splits option.splits node.splits)

lemma shutil_move_success:
  assumes "shutil_move fs src dst = (None, fs')" and "\<not> is_dir fs dst" and "src \<noteq> dst"
  shows "lookup fs' q = (if q = dst then lookup fs src else if q = src then None else lookup fs q)"
    and "is_file fs src"
  using assms
  by (auto simp: shutil_move_def Let_def os_rename_def copy2_def os_unlink_def lookup_put
      lookup_remove is_file_def
      split: if_splits sum.splits option.splits node.splits)


lemma organize_one_dry:
  "organize_one now True fc org w = (Normal, org, print [WouldMove (name (fst fc)) (snd fc)] w)"
  by (simp add: organize_one_def Let_def)

lemma organize_one_cases:
  assumes "organize_one now False fc org w = (r, org', w')"
  shows "(\<exists>e. r = Raised e \<and> mkdir_exist_ok (disk w) (join (destination_dir org) (snd fc)) = Inl e
            \<and> org' = org \<and> w' = w)
       \<or> (r = Normal \<and> org' = org\<lparr>moved_files := moved_files org @ [(name (fst fc), snd fc)]\<rparr>)
       \<or> (\<exists>e. r = Normal \<and> org' = org\<lparr>errors := errors org @ [(name (fst fc), e)]\<rparr>)"
  using assms
  by (auto simp: organize_one_def Let_def split: sum.splits prod.splits option.splits)

lemma organize_loop_dry:
  "organize_loop clock True files org w
     = (Normal, org, print (map (\<lambda>fc. WouldMove (name (fst fc)) (snd fc)) files) w)"
proof (induction files arbitrary: clock w)
  case Nil
  then show ?case by (simp add: print_def)
next
  case (Cons fc files)
  then show ?case by (simp add: organize_one_dry print_print)
qed

lemma organize_loop_records:
  assumes "organize_loop clock False files org w = (r, org', w')"
  shows "\<exists>ms es. org' = org\<lparr>moved_files := moved_files org @ ms, errors := errors org @ es\<rparr>
           \<and> set ms \<subseteq> (\<lambda>fc. (name (fst fc), snd fc)) ` set files
           \<and> fst ` set es \<subseteq> (\<lambda>fc. name (fst fc)) ` set files
           \<and> (r = Normal \<longrightarrow>
                mset (map fst ms) + mset (map fst es) = mset (map (\<lambda>fc. name (fst fc)) files))"
  using assms
proof (induction files arbitrary: clock org w)
  case Nil
  then show ?case by auto
next
  case (Cons fc files)
  obtain r1 org1 w1 where step: "organize_one (clock 0) False fc org w = (r1, org1, w1)"
    by (metis prod_cases3)
  show ?case
  proof (cases r1)
    case (Raised e)
    with step Cons.prems have "r = Raised e" "org' = org1" by auto
    moreover from organize_one_cases [OF step] Raised have "org1 = org" by auto
    ultimately show ?thesis by (intro exI [of _ "[]"]) auto
  next
    case Normal
    with step Cons.prems
    have rest: "organize_loop (clock \<circ> Suc) False files org1 w1 = (r, org', w')" by simp
    from Cons.IH [OF rest] obtain ms es where
      o: "org' = org1\<lparr>moved_files := moved_files org1 @ ms, errors := errors org1 @ es\<rparr>"
      and m: "set ms \<subseteq> (\<lambda>fc. (name (fst fc), snd fc)) ` set files"
      and e: "fst ` set es \<subseteq> (\<lambda>fc. name (fst fc)) ` set files"
      and c: "r = Normal \<longrightarrow>
                mset (map fst ms) + mset (map fst es) = mset (map (\<lambda>fc. name (fst fc)) files)"
      by blast
    from organize_one_cases [OF step] Normal
    consider (moved) "org1 = org\<lparr>moved_files := moved_files org @ [(name (fst fc), snd fc)]\<rparr>"
      | (failed) x where "org1 = org\<lparr>errors := errors org @ [(name (fst fc), x)]\<rparr>"
      by auto
    then show ?thesis
    proof cases
      case moved
      show ?thesis
        by (rule exI [of _ "(name (fst fc), snd fc) # ms"], rule exI [of _ es])
          (use o m e c moved in auto)
    next
      case failed
      show ?thesis
        by (rule exI [of _ ms], rule exI [of _ "(name (fst fc), x) # es"])
          (use o m e c failed in auto)
    qed
  qed
qed


lemma category_x_txt: "get_file_category [''in'', ''x.txt''] = ''Documents''"
  by (simp add: get_file_category_def FILE_CATEGORIES_def suffix_def name_def kelvin_sign_def
      char_lower_def)

lemma mkdir_lookup:
  assumes "mkdir_exist_ok fs0 p = Inr fs1"
  shows "lookup fs1 q = (if q = p \<and> \<not> exists fs0 p then Some (Dir True) else lookup fs0 q)"
  using assms
  by (auto simp: mkdir_exist_ok_def lookup_put exists_def is_dir_def
      split: if_splits option.splits node.splits)


section \<open>The source check\<close>





section \<open>The records of a run\<close>

lemma collect_member:
  "fc \<in> set (collect fs1 items) \<Longrightarrow>
     snd fc = get_file_category (fst fc) \<and> is_file fs1 (fst fc) \<and> fst fc \<in> set items"
  unfolding collect_def by (induction items) auto

lemma collect_names:
  "map (\<lambda>fc. name (fst fc)) (collect fs1 items) = map name (filter (is_file fs1) items)"
  unfolding collect_def by (induction items) auto

lemma iterdir_member:
  "iterdir fs1 d = Inr items \<Longrightarrow> p \<in> set items \<Longrightarrow> parent p = d"
  by (auto simp: iterdir_def split: option.splits node.splits)

lemma organize_files_records:
  assumes "organize_files clock org w dry_run = (r, org', w')"
  shows "\<exists>ms es. org' = org\<lparr>moved_files := moved_files org @ ms, errors := errors org @ es\<rparr>
           \<and> set ms \<subseteq> {(name f, get_file_category f) | f.
                          is_file (disk w) f \<and> parent f = source_dir org}
           \<and> fst ` set es \<subseteq> {name f | f. is_file (disk w) f \<and> parent f = source_dir org}
           \<and> (\<forall>items. r = Normal \<and> \<not> dry_run \<and> iterdir (disk w) (source_dir org) = Inr items \<longrightarrow>
                mset (map fst ms) + mset (map fst es)
                  = mset (map name (filter (is_file (disk w)) items)))"
proof -
  have trivial: ?thesis if "org' = org" and
    "\<And>items. r = Normal \<Longrightarrow> \<not> dry_run \<Longrightarrow> iterdir (disk w) (source_dir org) = Inr items \<Longrightarrow>
       filter (is_file (disk w)) items = []"
    by (rule exI [of _ "[]"], rule exI [of _ "[]"]) (use that in auto)
  show ?thesis
  proof (cases "exists (disk w) (source_dir org)")
    case False
    then have "org' = org" using assms by (simp add: organize_files_def)
    moreover have "iterdir (disk w) (source_dir org) \<noteq> Inr items" for items
      using False by (auto simp: iterdir_def exists_def split: option.splits node.splits)
    ultimately show ?thesis by (intro trivial) auto
  next
    case True
    show ?thesis
    proof (cases "iterdir (disk w) (source_dir org)")
      case (Inl e)
      then have "org' = org" using assms True
        by (simp add: organize_files_def Let_def disk_print)
      with Inl show ?thesis by (intro trivial) auto
    next
      case (Inr items)
      let ?files = "collect (disk w) items"
      show ?thesis
      proof (cases "?files = [] \<or> dry_run")
        case True
        then have "org' = org" using Inr \<open>exists (disk w) (source_dir org)\<close> assms
          by (cases dry_run)
            (auto simp: organize_files_def Let_def disk_print organize_loop_dry split: if_splits)
        moreover have "filter (is_file (disk w)) items = []" if "\<not> dry_run"
          using True that collect_names [of "disk w" items] by auto
        ultimately show ?thesis using Inr by (intro trivial) auto
      next
        case False
        let ?w1 = "print [Organizing dry_run (source_dir org), Destination (destination_dir org)] w"
        obtain r1 org1 w1 where loop: "organize_loop clock False ?files org ?w1 = (r1, org1, w1)"
          by (metis prod_cases3)
        have res: "org' = org1" "r = r1"
          using assms \<open>exists (disk w) (source_dir org)\<close> Inr False loop
          by (auto simp: organize_files_def Let_def disk_print split: outcome.splits)
        from organize_loop_records [OF loop] obtain ms es where
          o: "org1 = org\<lparr>moved_files := moved_files org @ ms, errors := errors org @ es\<rparr>"
          and m: "set ms \<subseteq> (\<lambda>fc. (name (fst fc), snd fc)) ` set ?files"
          and e: "fst ` set es \<subseteq> (\<lambda>fc. name (fst fc)) ` set ?files"
          and c: "r1 = Normal \<longrightarrow>
                mset (map fst ms) + mset (map fst es) = mset (map (\<lambda>fc. name (fst fc)) ?files)"
          by blast
        have m': "set ms \<subseteq> {(name f, get_file_category f) | f.
                          is_file (disk w) f \<and> parent f = source_dir org}"
        proof
          fix x assume "x \<in> set ms"
          with m obtain fc where fc: "fc \<in> set ?files" "x = (name (fst fc), snd fc)"
            by auto
          from collect_member [OF fc(1)]
          have k: "snd fc = get_file_category (fst fc)" "is_file (disk w) (fst fc)"
            "fst fc \<in> set items"
            by simp_all
          from iterdir_member [OF Inr k(3)] have "parent (fst fc) = source_dir org" .
          with fc(2) k(1,2)
          show "x \<in> {(name f, get_file_category f) | f.
                          is_file (disk w) f \<and> parent f = source_dir org}"
            by (intro CollectI exI [of _ "fst fc"]) simp
        qed
        have e': "fst ` set es \<subseteq> {name f | f. is_file (disk w) f \<and> parent f = source_dir org}"
        proof
          fix x assume "x \<in> fst ` set es"
          with e obtain fc where fc: "fc \<in> set ?files" "x = name (fst fc)"
            by auto
          from collect_member [OF fc(1)]
          have k: "is_file (disk w) (fst fc)" "fst fc \<in> set items"
            by simp_all
          from iterdir_member [OF Inr k(2)] have "parent (fst fc) = source_dir org" .
          with fc(2) k(1)
          show "x \<in> {name f | f. is_file (disk w) f \<and> parent f = source_dir org}"
            by (intro CollectI exI [of _ "fst fc"]) simp
        qed
        have first: "org' = org\<lparr>moved_files := moved_files org @ ms, errors := errors org @ es\<rparr>"
          using o res by simp
        have last: "mset (map fst ms) + mset (map fst es)
                  = mset (map name (filter (is_file (disk w)) its))"
          if "r = Normal \<and> \<not> dry_run \<and> iterdir (disk w) (source_dir org) = Inr its" for its
        proof -
          from that Inr have "its = items" by simp
          moreover from that res have "r1 = Normal" by simp
          ultimately show ?thesis using c collect_names [of "disk w" items] by simp
        qed
        show ?thesis
          by (rule exI [of _ ms], rule exI [of _ es]) (use first m' e' last in blast)
      qed
    qed
  qed
qed


text \<open>
  C8, as amended. The two lists are created empty by \<^verbatim>\<open>__init__\<close>, not by
  \<^verbatim>\<open>organize_files\<close>, which only appends to them: what a run returns is what the
  organizer held before, followed by records of files of this run's source. So the lists
  hold only records of the run when the organizer is fresh, as it is for both callers
  in the repository, which construct one organizer per run.
\<close>

theorem organize_files_appends_records:
  "moved_files (init source destination) = [] \<and> errors (init source destination) = []
   \<and> (organize_files clock org w dry_run = (r, org', w')
        \<longrightarrow> (\<exists>ms es.
              org' = org\<lparr>moved_files := moved_files org @ ms, errors := errors org @ es\<rparr>
              \<and> set ms \<subseteq> {(name f, get_file_category f) | f.
                             is_file (disk w) f \<and> parent f = source_dir org}
              \<and> fst ` set es \<subseteq> {name f | f.
                                   is_file (disk w) f \<and> parent f = source_dir org}))"
proof -
  have "\<exists>ms es.
          org' = org\<lparr>moved_files := moved_files org @ ms, errors := errors org @ es\<rparr>
          \<and> set ms \<subseteq> {(name f, get_file_category f) | f.
                         is_file (disk w) f \<and> parent f = source_dir org}
          \<and> fst ` set es \<subseteq> {name f | f. is_file (disk w) f \<and> parent f = source_dir org}"
    if run: "organize_files clock org w dry_run = (r, org', w')"
    using organize_files_records [OF run] by blast
  then show ?thesis by (simp add: init_def)
qed

theorem organize_files_appends_records_witness:
  "\<exists>ms es.
     used_organizer
       = (init [''in''] (Some [''out'']))
           \<lparr>moved_files := moved_files (init [''in''] (Some [''out''])) @ ms,
            errors := errors (init [''in''] (Some [''out''])) @ es\<rparr>
     \<and> set ms \<subseteq> {(name f, get_file_category f) | f.
                    is_file inbox_disk f \<and> parent f = [''in'']}
     \<and> fst ` set es \<subseteq> {name f | f. is_file inbox_disk f \<and> parent f = [''in'']}"
proof -
  let ?org = "init [''in''] (Some [''out''])" and ?w = "\<lparr>disk = inbox_disk, out = []\<rparr>"
  have run: "organize_files example_clock ?org ?w False
      = (Normal, used_organizer, snd (snd (organize_files example_clock ?org ?w False)))"
    by code_simp
  have src: "source_dir ?org = [''in'']" "disk ?w = inbox_disk"
    by (simp_all add: init_def)
  show ?thesis
    using run
      organize_files_appends_records [of "[''in'']" "Some [''out'']" example_clock ?org ?w False
        Normal used_organizer "snd (snd (organize_files example_clock ?org ?w False))"]
    unfolding src by blast
qed

text \<open>
  The claim as stated fails for a second run on the same organizer: the run over a
  source that holds only \<open>y.png\<close> returns the record of \<open>x.txt\<close>, moved by the first run.
\<close>

theorem organize_files_second_run_counterexample:
  "fst (snd (organize_files example_clock (init [''in''] (Some [''out'']))
               \<lparr>disk = inbox_disk, out = []\<rparr> False)) = used_organizer
   \<and> iterdir refilled_disk [''in''] = Inr [[''in'', ''y.png'']]
   \<and> moved_files (fst (snd (organize_files example_clock used_organizer
               \<lparr>disk = refilled_disk, out = []\<rparr> False)))
       = [(''x.txt'', ''Documents''), (''y.png'', ''Images'')]"
  by code_simp





section \<open>Runs in an environment\<close>

lemma print_summary_eq: "print_summary org dry_run w = print (summary org dry_run) w"
  by (simp add: print_summary_def summary_def)

lemma print_all_ok:
  "(\<forall>l \<in> set ls. env (Print l) = None) \<Longrightarrow> print_all env ls w = (None, print ls w)"
proof (induction ls arbitrary: w)
  case Nil
  then show ?case by (simp add: print_def)
next
  case (Cons l ls)
  then show ?case by (simp add: print_io_def print_print)
qed

lemma print_all_disk: "print_all env ls w = (r, w') \<Longrightarrow> disk w' = disk w"
proof (induction ls arbitrary: w)
  case Nil
  then show ?case by simp
next
  case (Cons l ls)
  then show ?case
    by (auto simp: print_io_def disk_print split: option.splits)
qed

lemma collect_io_ok:
  "(\<forall>item \<in> set items. env (Stat item) = None) \<Longrightarrow> collect_io env fs items = Inr (collect fs items)"
  by (induction items) (auto simp: is_file_io_def collect_def)

lemma organize_one_io_dry:
  "organize_one_io env now True fc org w =
     (case env (Print (WouldMove (name (fst fc)) (snd fc))) of
        None \<Rightarrow> (Normal, org, print [WouldMove (name (fst fc)) (snd fc)] w)
      | Some e \<Rightarrow> (Raised e, org, w))"
  by (simp add: organize_one_io_def Let_def print_io_def split: option.splits)

lemma organize_loop_io_dry_frame:
  "organize_loop_io env clock True files org w = (r, org', w') \<Longrightarrow> org' = org \<and> disk w' = disk w"
proof (induction files arbitrary: clock w)
  case Nil
  then show ?case by simp
next
  case (Cons fc files)
  show ?case
  proof (cases "env (Print (WouldMove (name (fst fc)) (snd fc)))")
    case None
    with Cons.prems have
      "organize_loop_io env (clock \<circ> Suc) True files org (print [WouldMove (name (fst fc)) (snd fc)] w)
         = (r, org', w')"
      by (simp add: organize_one_io_dry)
    from Cons.IH [OF this] show ?thesis by (simp add: disk_print)
  next
    case (Some e)
    with Cons.prems show ?thesis by (simp add: organize_one_io_dry)
  qed
qed

lemma organize_loop_io_dry_ok:
  "(\<forall>fc \<in> set files. env (Print (WouldMove (name (fst fc)) (snd fc))) = None) \<Longrightarrow>
   organize_loop_io env clock True files org w
     = (Normal, org, print (map (\<lambda>fc. WouldMove (name (fst fc)) (snd fc)) files) w)"
proof (induction files arbitrary: clock w)
  case Nil
  then show ?case by (simp add: print_def)
next
  case (Cons fc files)
  then show ?case by (simp add: organize_one_io_dry print_print)
qed

lemma organize_files_io_dry_frame:
  assumes "organize_files_io env clock org w True = (r, org', w')"
  shows "org' = org \<and> disk w' = disk w"
proof (cases "exists_io env (disk w) (source_dir org)")
  case (Inl e)
  with assms show ?thesis by (simp add: organize_files_io_def)
next
  case (Inr found)
  show ?thesis
  proof (cases found)
    case False
    with Inr assms show ?thesis
      by (auto simp: organize_files_io_def print_io_def disk_print split: option.splits)
  next
    case True
    obtain r1 w1 where hd: "print_all env
        [Organizing True (source_dir org), Destination (destination_dir org)] w = (r1, w1)"
      by (metis prod.exhaust)
    from print_all_disk [OF hd] have d1: "disk w1 = disk w" .
    show ?thesis
    proof (cases r1)
      case (Some e)
      with Inr True hd assms d1 show ?thesis by (simp add: organize_files_io_def)
    next
      case None
      show ?thesis
      proof (cases "iterdir_io env (disk w1) (source_dir org)")
        case (Inl e)
        with Inr True hd None assms d1 show ?thesis by (simp add: organize_files_io_def)
      next
        case items: (Inr items)
        show ?thesis
        proof (cases "collect_io env (disk w1) items")
          case (Inl e)
          with Inr True hd None items assms d1 show ?thesis by (simp add: organize_files_io_def)
        next
          case files: (Inr files)
          show ?thesis
          proof (cases "files = []")
            case True
            with Inr \<open>found\<close> hd None items files assms d1 show ?thesis
              by (auto simp: organize_files_io_def print_io_def disk_print split: option.splits)
          next
            case False
            obtain r2 org2 w2 where loop:
              "organize_loop_io env clock True files org w1 = (r2, org2, w2)"
              by (metis prod_cases3)
            from organize_loop_io_dry_frame [OF loop] have f2: "org2 = org" "disk w2 = disk w1"
              by simp_all
            obtain r3 w3 where sm: "print_summary_io env org2 True w2 = (r3, w3)"
              by (metis prod.exhaust)
            from print_all_disk [OF sm [unfolded print_summary_io_def]] have d3: "disk w3 = disk w2" .
            from Inr \<open>found\<close> hd None items files False loop sm assms
            have "org' = org2 \<and> (w' = w2 \<or> w' = w3)"
              by (auto simp: organize_files_io_def split: outcome.splits option.splits)
            with f2 d3 d1 show ?thesis by auto
          qed
        qed
      qed
    qed
  qed
qed


lemma no_failures_calls:
  "exists_io no_failures fs p = Inr (exists fs p)"
  "is_file_io no_failures fs p = Inr (is_file fs p)"
  "iterdir_io no_failures fs p = iterdir fs p"
  "mkdir_io no_failures fs p = mkdir_exist_ok fs p"
  "shutil_move_io no_failures fs src dst = shutil_move fs src dst"
  "print_io no_failures l w = Inr (print [l] w)"
  "print_all no_failures ls w = (None, print ls w)"
  "collect_io no_failures fs items = Inr (collect fs items)"
  "unique_destination_io no_failures now fs p file_path = Inr (unique_destination now fs p file_path)"
  by (simp_all add: exists_io_def is_file_io_def iterdir_io_def mkdir_io_def shutil_move_io_def
      print_io_def print_all_ok collect_io_ok unique_destination_io_def unique_destination_def
      no_failures_def Let_def)

lemma organize_one_io_no_failures:
  "organize_one_io no_failures now dry_run fc org w = organize_one now dry_run fc org w"
  by (auto simp: organize_one_io_def organize_one_def except_handler_def no_failures_calls
      Let_def print_def split: sum.splits prod.splits option.splits)

lemma organize_loop_io_no_failures:
  "organize_loop_io no_failures clock dry_run files org w = organize_loop clock dry_run files org w"
  by (induction files arbitrary: clock org w)
    (auto simp: organize_one_io_no_failures split: prod.splits outcome.splits)

lemma organize_files_io_no_failures:
  "organize_files_io no_failures clock org w dry_run = organize_files clock org w dry_run"
  by (auto simp: organize_files_io_def organize_files_def no_failures_calls Let_def disk_print
      organize_loop_io_no_failures print_summary_io_def print_summary_eq print_print
      split: sum.splits prod.splits option.splits outcome.splits)

lemma world_updates:
  "(w :: world)\<lparr>disk := a, out := b\<rparr> = \<lparr>disk = a, out = b\<rparr>"
  "(w :: world)\<lparr>disk := a\<rparr> = \<lparr>disk = a, out = out w\<rparr>"
  by (cases w, simp)+

lemma except_handler_eq:
  "except_handler env file_path e org w =
     (case env (Print (ErrorMoving (name file_path) e)) of
        None \<Rightarrow> (Normal, org\<lparr>errors := errors org @ [(name file_path, e)]\<rparr>,
                 w\<lparr>out := out w @ [ErrorMoving (name file_path) e]\<rparr>)
      | Some x \<Rightarrow> (Raised x, org\<lparr>errors := errors org @ [(name file_path, e)]\<rparr>, w))"
  by (simp add: except_handler_def Let_def print_io_def print_def split: option.splits)

lemma organize_one_io_cases:
  assumes "organize_one_io env now False fc org w = (r, org', w')"
  shows "(org' = org \<and> r \<noteq> Normal)
       \<or> (org' = org\<lparr>moved_files := moved_files org @ [(name (fst fc), snd fc)]\<rparr> \<and> r = Normal)
       \<or> (\<exists>e. org' = org\<lparr>moved_files := moved_files org @ [(name (fst fc), snd fc)],
                           errors := errors org @ [(name (fst fc), e)]\<rparr>)
       \<or> (\<exists>e. org' = org\<lparr>errors := errors org @ [(name (fst fc), e)]\<rparr>)"
  using assms
  by (auto simp: organize_one_io_def except_handler_eq Let_def print_io_def
      split: sum.splits prod.splits option.splits)

lemma organize_one_io_raised:
  assumes "organize_one_io env now False fc org w = (Raised x, org', w')"
  shows "(mkdir_io env (disk w) (join (destination_dir org) (snd fc)) = Inl x \<and> org' = org)
       \<or> (\<exists>fs1. mkdir_io env (disk w) (join (destination_dir org) (snd fc)) = Inr fs1
             \<and> exists_io env fs1 (join (join (destination_dir org) (snd fc)) (name (fst fc))) = Inl x
             \<and> org' = org)
       \<or> (\<exists>e. env (Print (ErrorMoving (name (fst fc)) e)) = Some x
             \<and> errors org' = errors org @ [(name (fst fc), e)])"
  using assms
  by (auto simp: organize_one_io_def except_handler_eq Let_def print_io_def
      unique_destination_io_def
      split: sum.splits prod.splits option.splits)

lemma organize_one_io_records:
  assumes "organize_one_io env now False fc org w = (r, org', w')"
  shows "\<exists>ms es. org' = org\<lparr>moved_files := moved_files org @ ms, errors := errors org @ es\<rparr>
           \<and> set ms \<subseteq> {(name (fst fc), snd fc)} \<and> fst ` set es \<subseteq> {name (fst fc)}
           \<and> (r = Normal \<longrightarrow> {#name (fst fc)#} \<subseteq># mset (map fst ms) + mset (map fst es))"
proof -
  from organize_one_io_cases [OF assms]
  consider (none) "org' = org" "r \<noteq> Normal"
    | (moved) "org' = org\<lparr>moved_files := moved_files org @ [(name (fst fc), snd fc)]\<rparr>"
    | (both) e where "org' = org\<lparr>moved_files := moved_files org @ [(name (fst fc), snd fc)],
                           errors := errors org @ [(name (fst fc), e)]\<rparr>"
    | (failed) e where "org' = org\<lparr>errors := errors org @ [(name (fst fc), e)]\<rparr>"
    by blast
  then show ?thesis
  proof cases
    case none
    show ?thesis
      by (rule exI [of _ "[]"], rule exI [of _ "[]"]) (use none in simp)
  next
    case moved
    show ?thesis
      by (rule exI [of _ "[(name (fst fc), snd fc)]"], rule exI [of _ "[]"]) (use moved in simp)
  next
    case both
    show ?thesis
      by (rule exI [of _ "[(name (fst fc), snd fc)]"], rule exI [of _ "[(name (fst fc), e)]"])
        (use both in simp)
  next
    case failed
    show ?thesis
      by (rule exI [of _ "[]"], rule exI [of _ "[(name (fst fc), e)]"]) (use failed in simp)
  qed
qed

lemma organize_loop_io_records:
  assumes "organize_loop_io env clock False files org w = (r, org', w')"
  shows "\<exists>ms es. org' = org\<lparr>moved_files := moved_files org @ ms, errors := errors org @ es\<rparr>
           \<and> set ms \<subseteq> (\<lambda>fc. (name (fst fc), snd fc)) ` set files
           \<and> fst ` set es \<subseteq> (\<lambda>fc. name (fst fc)) ` set files
           \<and> (r = Normal \<longrightarrow>
                mset (map (\<lambda>fc. name (fst fc)) files) \<subseteq># mset (map fst ms) + mset (map fst es))"
  using assms
proof (induction files arbitrary: clock org w)
  case Nil
  then show ?case by auto
next
  case (Cons fc files)
  obtain r1 org1 w1 where step: "organize_one_io env (clock 0) False fc org w = (r1, org1, w1)"
    by (metis prod_cases3)
  from organize_one_io_records [OF step] obtain ms1 es1 where
    o1: "org1 = org\<lparr>moved_files := moved_files org @ ms1, errors := errors org @ es1\<rparr>"
    and m1: "set ms1 \<subseteq> {(name (fst fc), snd fc)}"
    and e1: "fst ` set es1 \<subseteq> {name (fst fc)}"
    and c1: "r1 = Normal \<longrightarrow> {#name (fst fc)#} \<subseteq># mset (map fst ms1) + mset (map fst es1)"
    by blast
  show ?case
  proof (cases r1)
    case (Raised e)
    with step Cons.prems have "r = Raised e" "org' = org1" by auto
    then show ?thesis
      by (intro exI [of _ ms1] exI [of _ es1]) (use o1 m1 e1 in auto)
  next
    case Normal
    with step Cons.prems
    have rest: "organize_loop_io env (clock \<circ> Suc) False files org1 w1 = (r, org', w')" by simp
    from Cons.IH [OF rest] obtain ms es where
      o: "org' = org1\<lparr>moved_files := moved_files org1 @ ms, errors := errors org1 @ es\<rparr>"
      and m: "set ms \<subseteq> (\<lambda>fc. (name (fst fc), snd fc)) ` set files"
      and e: "fst ` set es \<subseteq> (\<lambda>fc. name (fst fc)) ` set files"
      and c: "r = Normal \<longrightarrow>
                mset (map (\<lambda>fc. name (fst fc)) files) \<subseteq># mset (map fst ms) + mset (map fst es)"
      by blast
    have first: "org' = org\<lparr>moved_files := moved_files org @ (ms1 @ ms),
                           errors := errors org @ (es1 @ es)\<rparr>"
      using o o1 by simp
    have ms: "set (ms1 @ ms) \<subseteq> (\<lambda>fc. (name (fst fc), snd fc)) ` set (fc # files)"
      using m m1 by auto
    have es: "fst ` set (es1 @ es) \<subseteq> (\<lambda>fc. name (fst fc)) ` set (fc # files)"
      using e e1 by auto
    have cnt: "mset (map (\<lambda>fc. name (fst fc)) (fc # files))
          \<subseteq># mset (map fst (ms1 @ ms)) + mset (map fst (es1 @ es))" if "r = Normal"
    proof -
      from c that have a: "mset (map (\<lambda>fc. name (fst fc)) files)
          \<subseteq># mset (map fst ms) + mset (map fst es)" by simp
      from c1 Normal have b: "{#name (fst fc)#} \<subseteq># mset (map fst ms1) + mset (map fst es1)"
        by simp
      from subset_mset.add_mono [OF b a]
      show ?thesis by (simp add: ac_simps)
    qed
    show ?thesis
      by (rule exI [of _ "ms1 @ ms"], rule exI [of _ "es1 @ es"]) (use first ms es cnt in blast)
  qed
qed

lemma organize_loop_io_abort:
  assumes "organize_loop_io env clock False files org w = (Raised x, org', w')"
  shows "\<exists>pre fc post org0 w0. files = pre @ fc # post
           \<and> organize_loop_io env clock False pre org w = (Normal, org0, w0)
           \<and> destination_dir org0 = destination_dir org
           \<and> organize_one_io env (clock (length pre)) False fc org0 w0 = (Raised x, org', w')"
  using assms
proof (induction files arbitrary: clock org w)
  case Nil
  then show ?case by simp
next
  case (Cons fc files)
  obtain r1 org1 w1 where step: "organize_one_io env (clock 0) False fc org w = (r1, org1, w1)"
    by (metis prod_cases3)
  show ?case
  proof (cases r1)
    case (Raised e)
    with step Cons.prems have eq: "x = e" "org' = org1" "w' = w1" by simp_all
    have "fc # files = [] @ fc # files
        \<and> organize_loop_io env clock False [] org w = (Normal, org, w)
        \<and> destination_dir org = destination_dir org
        \<and> organize_one_io env (clock (length ([] :: (path \<times> string) list))) False fc org w
            = (Raised x, org', w')"
      using eq step Raised by simp
    then show ?thesis by blast
  next
    case Normal
    with step Cons.prems
    have rest: "organize_loop_io env (clock \<circ> Suc) False files org1 w1 = (Raised x, org', w')"
      by simp
    from Cons.IH [OF rest] obtain pre fc' post org0 w0 where
      p: "files = pre @ fc' # post"
      "organize_loop_io env (clock \<circ> Suc) False pre org1 w1 = (Normal, org0, w0)"
      "destination_dir org0 = destination_dir org1"
      "organize_one_io env ((clock \<circ> Suc) (length pre)) False fc' org0 w0 = (Raised x, org', w')"
      by blast
    from organize_one_io_records [OF step]
    have d: "destination_dir org1 = destination_dir org" by auto
    have "fc # files = (fc # pre) @ fc' # post
        \<and> organize_loop_io env clock False (fc # pre) org w = (Normal, org0, w0)
        \<and> destination_dir org0 = destination_dir org
        \<and> organize_one_io env (clock (length (fc # pre))) False fc' org0 w0 = (Raised x, org', w')"
      using p d step Normal by simp
    then show ?thesis by blast
  qed
qed

lemma mkdir_io_lookup:
  assumes "mkdir_io env fs0 p = Inr fs1"
  shows "lookup fs1 q = (if q = p \<and> \<not> exists fs0 p then Some (Dir True) else lookup fs0 q)"
proof -
  from assms have "mkdir_exist_ok fs0 p = Inr fs1"
    by (simp add: mkdir_io_def split: option.splits)
  then show ?thesis by (rule mkdir_lookup)
qed

lemma shutil_move_io_failure_keeps_source:
  assumes "shutil_move_io env fs src dst = (Some e, fs')"
  shows "lookup fs' src = lookup fs src"
proof (cases "env (Move src dst)")
  case None
  with assms have "shutil_move fs src dst = (Some e, fs')" by (simp add: shutil_move_io_def)
  then show ?thesis by (rule shutil_move_failure_keeps_source)
next
  case (Some x)
  with assms show ?thesis by (simp add: shutil_move_io_def)
qed

lemma organize_files_io_source_missing:
  assumes "exists_io env (disk w) (source_dir org) = Inr False"
  shows "organize_files_io env clock org w dry_run
       = (case env (Print (SourceMissing (source_dir org))) of
            None \<Rightarrow> (Normal, org, w\<lparr>out := out w @ [SourceMissing (source_dir org)]\<rparr>)
          | Some e \<Rightarrow> (Raised e, org, w))"
  using assms
  by (simp add: organize_files_io_def print_io_def print_def split: option.splits)


section \<open>Preview runs\<close>

text \<open>
  C3, as amended. A run with \<^verbatim>\<open>dry_run=True\<close> returns the organizer as it was (no
  success and no failure record) and leaves the file system as it was (no directory
  created, no file moved), in every environment and however the run ends. Over a source
  directory with at least one regular file it ends normally and prints, for every file of
  the snapshot in listing order, the category the file would go to, followed by the
  summary, if the source and its entries can be examined and listed and the console takes
  every line of this report. A line that the console does not take ends the loop with
  the exception of \<^verbatim>\<open>print\<close>: that file and the files after it are not reported.
\<close>

theorem organize_files_dry_run:
  "fst (snd (organize_files_io env clock org w True)) = org
   \<and> disk (snd (snd (organize_files_io env clock org w True))) = disk w
   \<and> (iterdir (disk w) (source_dir org) = Inr items \<and> filter (is_file (disk w)) items \<noteq> []
        \<and> env (Stat (source_dir org)) = None \<and> env (Listdir (source_dir org)) = None
        \<and> (\<forall>item \<in> set items. env (Stat item) = None)
        \<and> (\<forall>l \<in> set ([Organizing True (source_dir org), Destination (destination_dir org)] @
                       map (\<lambda>item. WouldMove (name item) (get_file_category item))
                         (filter (is_file (disk w)) items) @
                       summary org True).
              env (Print l) = None)
        \<longrightarrow> organize_files_io env clock org w True =
              (Normal, org,
               print_summary org True
                 (print
                    ([Organizing True (source_dir org), Destination (destination_dir org)] @
                     map (\<lambda>item. WouldMove (name item) (get_file_category item))
                       (filter (is_file (disk w)) items))
                    w)))
   \<and> (env (Print (WouldMove (name file_path) category)) = Some e
        \<longrightarrow> organize_loop_io env clock True ((file_path, category) # rest) org w = (Raised e, org, w))"
proof -
  obtain r org' w' where run: "organize_files_io env clock org w True = (r, org', w')"
    by (metis prod_cases3)
  from organize_files_io_dry_frame [OF run] run
  have frame: "fst (snd (organize_files_io env clock org w True)) = org"
    "disk (snd (snd (organize_files_io env clock org w True))) = disk w"
    by simp_all
  have c: "map (\<lambda>fc. WouldMove (name (fst fc)) (snd fc)) (collect fs1 its)
        = map (\<lambda>item. WouldMove (name item) (get_file_category item)) (filter (is_file fs1) its)"
    for fs1 its
    unfolding collect_def by (induction its) auto
  have e: "(collect fs1 its = []) = (filter (is_file fs1) its = [])" for fs1 its
    unfolding collect_def by (induction its) auto
  have report: "iterdir (disk w) (source_dir org) = Inr items \<and> filter (is_file (disk w)) items \<noteq> []
        \<and> env (Stat (source_dir org)) = None \<and> env (Listdir (source_dir org)) = None
        \<and> (\<forall>item \<in> set items. env (Stat item) = None)
        \<and> (\<forall>l \<in> set ([Organizing True (source_dir org), Destination (destination_dir org)] @
                       map (\<lambda>item. WouldMove (name item) (get_file_category item))
                         (filter (is_file (disk w)) items) @
                       summary org True).
              env (Print l) = None)
        \<longrightarrow> organize_files_io env clock org w True =
              (Normal, org,
               print_summary org True
                 (print
                    ([Organizing True (source_dir org), Destination (destination_dir org)] @
                     map (\<lambda>item. WouldMove (name item) (get_file_category item))
                       (filter (is_file (disk w)) items))
                    w))"
  proof (intro impI, elim conjE)
    assume it: "iterdir (disk w) (source_dir org) = Inr items"
      and ne: "filter (is_file (disk w)) items \<noteq> []"
      and st: "env (Stat (source_dir org)) = None" and ls: "env (Listdir (source_dir org)) = None"
      and sti: "\<forall>item \<in> set items. env (Stat item) = None"
      and pr: "\<forall>l \<in> set ([Organizing True (source_dir org), Destination (destination_dir org)] @
                       map (\<lambda>item. WouldMove (name item) (get_file_category item))
                         (filter (is_file (disk w)) items) @
                       summary org True).
              env (Print l) = None"
    let ?head = "[Organizing True (source_dir org), Destination (destination_dir org)]"
    let ?files = "collect (disk w) items"
    have ex: "exists_io env (disk w) (source_dir org) = Inr True"
      using it st by (auto simp: exists_io_def iterdir_def exists_def split: option.splits)
    have hd: "print_all env ?head w = (None, print ?head w)"
      by (rule print_all_ok) (use pr in simp)
    have li: "iterdir_io env (disk (print ?head w)) (source_dir org) = Inr items"
      using it ls by (simp add: iterdir_io_def disk_print)
    have co: "collect_io env (disk (print ?head w)) items = Inr ?files"
      using collect_io_ok [OF sti] by (simp add: disk_print)
    have nf: "?files \<noteq> []" using ne by (simp add: e)
    have "\<forall>fc \<in> set ?files. env (Print (WouldMove (name (fst fc)) (snd fc))) = None"
    proof
      fix fc assume "fc \<in> set ?files"
      then have "WouldMove (name (fst fc)) (snd fc)
          \<in> set (map (\<lambda>fc. WouldMove (name (fst fc)) (snd fc)) ?files)"
        by simp
      then have "WouldMove (name (fst fc)) (snd fc)
          \<in> set (map (\<lambda>item. WouldMove (name item) (get_file_category item))
                  (filter (is_file (disk w)) items))"
        by (simp only: c)
      with pr show "env (Print (WouldMove (name (fst fc)) (snd fc))) = None" by simp
    qed
    from organize_loop_io_dry_ok [OF this]
    have lp: "organize_loop_io env clock True ?files org (print ?head w)
        = (Normal, org, print (map (\<lambda>fc. WouldMove (name (fst fc)) (snd fc)) ?files) (print ?head w))" .
    have sm: "print_summary_io env org True w2 = (None, print_summary org True w2)" for w2
      unfolding print_summary_io_def print_summary_eq
      by (rule print_all_ok) (use pr in simp)
    show "organize_files_io env clock org w True =
              (Normal, org,
               print_summary org True
                 (print
                    ([Organizing True (source_dir org), Destination (destination_dir org)] @
                     map (\<lambda>item. WouldMove (name item) (get_file_category item))
                       (filter (is_file (disk w)) items))
                    w))"
      unfolding organize_files_io_def
      by (simp add: ex hd li co nf lp sm c print_print del: print_all.simps)
  qed
  have stop: "organize_loop_io env clock True ((file_path, category) # rest) org w = (Raised e, org, w)"
    if "env (Print (WouldMove (name file_path) category)) = Some e"
    using that by (simp add: organize_one_io_dry)
  show ?thesis
    by (intro conjI) (rule frame(1), rule frame(2), rule report, rule impI, erule stop)
qed

theorem organize_files_dry_run_witness:
  "organize_files_io no_failures example_clock (init [''in''] (Some [''out'']))
       \<lparr>disk = inbox_disk, out = []\<rparr> True
     = (Normal, init [''in''] (Some [''out'']),
        \<lparr>disk = inbox_disk,
         out = [Organizing True [''in''], Destination [''out''],
                WouldMove ''x.txt'' ''Documents'', Rule, DryRunComplete]\<rparr>)"
proof -
  let ?org = "init [''in''] (Some [''out''])" and ?w = "\<lparr>disk = inbox_disk, out = []\<rparr>"
  let ?items = "[[''in'', ''x.txt'']]"
  have h1: "iterdir (disk ?w) (source_dir ?org) = Inr ?items"
    by (simp add: iterdir_def lookup_def inbox_disk_def init_def parent_def)
  have h2: "filter (is_file (disk ?w)) ?items \<noteq> []"
    by (simp add: is_file_def lookup_def inbox_disk_def)
  have h3: "no_failures (Stat (source_dir ?org)) = None" "no_failures (Listdir (source_dir ?org)) = None"
    "\<forall>item \<in> set ?items. no_failures (Stat item) = None"
    "\<forall>l \<in> set ([Organizing True (source_dir ?org), Destination (destination_dir ?org)] @
                       map (\<lambda>item. WouldMove (name item) (get_file_category item))
                         (filter (is_file (disk ?w)) ?items) @
                       summary ?org True).
              no_failures (Print l) = None"
    by (simp_all add: no_failures_def)
  have "organize_files_io no_failures example_clock ?org ?w True =
      (Normal, ?org,
       print_summary ?org True
         (print
            ([Organizing True (source_dir ?org), Destination (destination_dir ?org)] @
             map (\<lambda>item. WouldMove (name item) (get_file_category item))
               (filter (is_file (disk ?w)) ?items))
            ?w))"
    using h1 h2 h3
      organize_files_dry_run [where env = no_failures and clock = example_clock and org = ?org
        and w = ?w and items = ?items]
    by blast
  then show ?thesis
    by (simp add: print_summary_def print_def init_def is_file_def lookup_def inbox_disk_def
        name_def category_x_txt)
qed

text \<open>
  The claim as stated fails on a console that cannot encode the arrow of the preview line,
  as with the ASCII encoding or a Windows code page: the header is printed, the first
  preview line raises \<^verbatim>\<open>UnicodeEncodeError\<close>, and the one file of the source is not
  reported.
\<close>

theorem organize_files_dry_run_console_counterexample:
  "iterdir inbox_disk [''in''] = Inr [[''in'', ''x.txt'']]
   \<and> is_file inbox_disk [''in'', ''x.txt'']
   \<and> organize_files_io ascii_console example_clock (init [''in''] (Some [''out'']))
        \<lparr>disk = inbox_disk, out = []\<rparr> True
     = (Raised (UnicodeEncodeError ''ascii''), init [''in''] (Some [''out'']),
        \<lparr>disk = inbox_disk, out = [Organizing True [''in''], Destination [''out'']]\<rparr>)"
  by code_simp


section \<open>Failures of a move\<close>

text \<open>
  C4, as amended. When the move of a file raises, exactly one record (name, exception) is
  appended to \<^verbatim>\<open>errors\<close> and the source file is left as it was. The handler then prints
  the error line: if the console takes it, the loop goes on with the next file; if
  \<^verbatim>\<open>print\<close> raises, the run ends there with the record made and the remaining files are
  not processed. A run is ended early only by an exception raised outside the \<^verbatim>\<open>try\<close>:
  by the creation of the category directory, by the existence check of the destination,
  or by the print of the error line in the handler. A run that is not ended early has at
  least one record for every file of the snapshot.
\<close>

theorem organize_loop_move_failure:
  "(mkdir_io env (disk w) (join (destination_dir org) category) = Inr fs1
      \<and> unique_destination_io env (clock 0) fs1 (join (destination_dir org) category) file_path
          = Inr destination
      \<and> shutil_move_io env fs1 file_path destination = (Some e, fs2)
     \<longrightarrow> (env (Print (ErrorMoving (name file_path) e)) = None
            \<longrightarrow> organize_loop_io env clock False ((file_path, category) # rest) org w
                 = organize_loop_io env (clock \<circ> Suc) False rest
                     (org\<lparr>errors := errors org @ [(name file_path, e)]\<rparr>)
                     \<lparr>disk = fs2, out = out w @ [ErrorMoving (name file_path) e]\<rparr>)
         \<and> (env (Print (ErrorMoving (name file_path) e)) = Some x
            \<longrightarrow> organize_loop_io env clock False ((file_path, category) # rest) org w
                 = (Raised x, org\<lparr>errors := errors org @ [(name file_path, e)]\<rparr>,
                    \<lparr>disk = fs2, out = out w\<rparr>))
         \<and> (exists (disk w) file_path \<longrightarrow> lookup fs2 file_path = lookup (disk w) file_path))
   \<and> (organize_loop_io env clock False files org w = (Raised x, org', w')
     \<longrightarrow> (\<exists>pre fc post org0 w0. files = pre @ fc # post
            \<and> organize_loop_io env clock False pre org w = (Normal, org0, w0)
            \<and> ((mkdir_io env (disk w0) (join (destination_dir org) (snd fc)) = Inl x \<and> org' = org0)
               \<or> (\<exists>fs1. mkdir_io env (disk w0) (join (destination_dir org) (snd fc)) = Inr fs1
                     \<and> exists_io env fs1
                           (join (join (destination_dir org) (snd fc)) (name (fst fc))) = Inl x
                     \<and> org' = org0)
               \<or> (\<exists>e. env (Print (ErrorMoving (name (fst fc)) e)) = Some x
                     \<and> errors org' = errors org0 @ [(name (fst fc), e)]))))
   \<and> (organize_loop_io env clock False files org w = (Normal, org', w')
     \<longrightarrow> (\<exists>ms es.
            org' = org\<lparr>moved_files := moved_files org @ ms, errors := errors org @ es\<rparr>
            \<and> mset (map (\<lambda>fc. name (fst fc)) files) \<subseteq># mset (map fst ms) + mset (map fst es)))"
proof -
  let ?cd = "join (destination_dir org) category"
  let ?org1 = "org\<lparr>errors := errors org @ [(name file_path, e)]\<rparr>"
  have one: "organize_one_io env (clock 0) False (file_path, category) org w
        = except_handler env file_path e org (w\<lparr>disk := fs2\<rparr>)"
    if "mkdir_io env (disk w) ?cd = Inr fs1"
      "unique_destination_io env (clock 0) fs1 ?cd file_path = Inr destination"
      "shutil_move_io env fs1 file_path destination = (Some e, fs2)"
    using that by (simp add: organize_one_io_def Let_def)
  have step: "(env (Print (ErrorMoving (name file_path) e)) = None
            \<longrightarrow> organize_loop_io env clock False ((file_path, category) # rest) org w
                 = organize_loop_io env (clock \<circ> Suc) False rest ?org1
                     \<lparr>disk = fs2, out = out w @ [ErrorMoving (name file_path) e]\<rparr>)
         \<and> (env (Print (ErrorMoving (name file_path) e)) = Some x
            \<longrightarrow> organize_loop_io env clock False ((file_path, category) # rest) org w
                 = (Raised x, ?org1, \<lparr>disk = fs2, out = out w\<rparr>))
         \<and> (exists (disk w) file_path \<longrightarrow> lookup fs2 file_path = lookup (disk w) file_path)"
    if mk: "mkdir_io env (disk w) ?cd = Inr fs1"
      and ud: "unique_destination_io env (clock 0) fs1 ?cd file_path = Inr destination"
      and mv: "shutil_move_io env fs1 file_path destination = (Some e, fs2)"
  proof (intro conjI impI)
    assume "env (Print (ErrorMoving (name file_path) e)) = None"
    then show "organize_loop_io env clock False ((file_path, category) # rest) org w
                 = organize_loop_io env (clock \<circ> Suc) False rest ?org1
                     \<lparr>disk = fs2, out = out w @ [ErrorMoving (name file_path) e]\<rparr>"
      by (simp add: one [OF mk ud mv] except_handler_eq world_updates)
  next
    assume "env (Print (ErrorMoving (name file_path) e)) = Some x"
    then show "organize_loop_io env clock False ((file_path, category) # rest) org w
                 = (Raised x, ?org1, \<lparr>disk = fs2, out = out w\<rparr>)"
      by (simp add: one [OF mk ud mv] except_handler_eq world_updates)
  next
    assume ex: "exists (disk w) file_path"
    have "lookup fs2 file_path = lookup fs1 file_path"
      by (rule shutil_move_io_failure_keeps_source [OF mv])
    moreover have "lookup fs1 file_path = lookup (disk w) file_path"
      using mkdir_io_lookup [OF mk, of file_path] ex by (auto split: if_splits)
    ultimately show "lookup fs2 file_path = lookup (disk w) file_path" by simp
  qed
  have abort: "\<exists>pre fc post org0 w0. files = pre @ fc # post
            \<and> organize_loop_io env clock False pre org w = (Normal, org0, w0)
            \<and> ((mkdir_io env (disk w0) (join (destination_dir org) (snd fc)) = Inl x \<and> org' = org0)
               \<or> (\<exists>fs1. mkdir_io env (disk w0) (join (destination_dir org) (snd fc)) = Inr fs1
                     \<and> exists_io env fs1
                           (join (join (destination_dir org) (snd fc)) (name (fst fc))) = Inl x
                     \<and> org' = org0)
               \<or> (\<exists>e. env (Print (ErrorMoving (name (fst fc)) e)) = Some x
                     \<and> errors org' = errors org0 @ [(name (fst fc), e)]))"
    if "organize_loop_io env clock False files org w = (Raised x, org', w')"
  proof -
    from organize_loop_io_abort [OF that] obtain pre fc post org0 w0 where
      p: "files = pre @ fc # post"
      "organize_loop_io env clock False pre org w = (Normal, org0, w0)"
      "destination_dir org0 = destination_dir org"
      "organize_one_io env (clock (length pre)) False fc org0 w0 = (Raised x, org', w')"
      by blast
    from organize_one_io_raised [OF p(4)] p(3)
    have "(mkdir_io env (disk w0) (join (destination_dir org) (snd fc)) = Inl x \<and> org' = org0)
               \<or> (\<exists>fs1. mkdir_io env (disk w0) (join (destination_dir org) (snd fc)) = Inr fs1
                     \<and> exists_io env fs1
                           (join (join (destination_dir org) (snd fc)) (name (fst fc))) = Inl x
                     \<and> org' = org0)
               \<or> (\<exists>e. env (Print (ErrorMoving (name (fst fc)) e)) = Some x
                     \<and> errors org' = errors org0 @ [(name (fst fc), e)])"
      by simp
    with p(1,2) show ?thesis by blast
  qed
  have total: "\<exists>ms es.
            org' = org\<lparr>moved_files := moved_files org @ ms, errors := errors org @ es\<rparr>
            \<and> mset (map (\<lambda>fc. name (fst fc)) files) \<subseteq># mset (map fst ms) + mset (map fst es)"
    if "organize_loop_io env clock False files org w = (Normal, org', w')"
    using organize_loop_io_records [OF that] by blast
  show ?thesis
  proof (intro conjI)
    show "mkdir_io env (disk w) ?cd = Inr fs1
      \<and> unique_destination_io env (clock 0) fs1 ?cd file_path = Inr destination
      \<and> shutil_move_io env fs1 file_path destination = (Some e, fs2)
     \<longrightarrow> (env (Print (ErrorMoving (name file_path) e)) = None
            \<longrightarrow> organize_loop_io env clock False ((file_path, category) # rest) org w
                 = organize_loop_io env (clock \<circ> Suc) False rest ?org1
                     \<lparr>disk = fs2, out = out w @ [ErrorMoving (name file_path) e]\<rparr>)
         \<and> (env (Print (ErrorMoving (name file_path) e)) = Some x
            \<longrightarrow> organize_loop_io env clock False ((file_path, category) # rest) org w
                 = (Raised x, ?org1, \<lparr>disk = fs2, out = out w\<rparr>))
         \<and> (exists (disk w) file_path \<longrightarrow> lookup fs2 file_path = lookup (disk w) file_path)"
      using step by blast
  qed (rule impI, erule abort, rule impI, erule total)
qed

theorem organize_loop_move_failure_witness:
  "organize_loop_io no_failures example_clock False
     [([''in'', ''b.txt''], ''Documents''), ([''in'', ''c.mp3''], ''Music'')]
     (init [''in''] (Some [''out''])) \<lparr>disk = three_disk, out = []\<rparr>
   = (Normal,
      \<lparr>source_dir = [''in''], destination_dir = [''out''],
       moved_files = [(''c.mp3'', ''Music'')],
       errors = [(''b.txt'', PermissionError [''out'', ''Documents'', ''b.txt''])]\<rparr>,
      \<lparr>disk =
         [([''in''], Dir True), ([''in'', ''a.png''], File ''A''),
          ([''in'', ''b.txt''], File ''B''), ([''out''], Dir True),
          ([''out'', ''Documents''], Dir False),
          ([''out'', ''Music''], Dir True),
          ([''out'', ''Music'', ''c.mp3''], File ''C'')],
       out = [ErrorMoving ''b.txt'' (PermissionError [''out'', ''Documents'', ''b.txt'']),
              Moved ''c.mp3'' ''Music'']\<rparr>)
   \<and> lookup three_disk [''in'', ''b.txt''] = Some (File ''B'')"
proof -
  let ?org = "init [''in''] (Some [''out''])" and ?w = "\<lparr>disk = three_disk, out = []\<rparr>"
  let ?e = "PermissionError [''out'', ''Documents'', ''b.txt'']"
  let ?f = "[''in'', ''b.txt'']"
  let ?rest = "[([''in'', ''c.mp3''], ''Music'')]"
  have h1: "mkdir_io no_failures (disk ?w) (join (destination_dir ?org) ''Documents'') = Inr three_disk"
    by code_simp
  have h2: "unique_destination_io no_failures (example_clock 0) three_disk
      (join (destination_dir ?org) ''Documents'') ?f = Inr [''out'', ''Documents'', ''b.txt'']"
    by code_simp
  have h3: "shutil_move_io no_failures three_disk ?f [''out'', ''Documents'', ''b.txt'']
      = (Some ?e, three_disk)"
    by code_simp
  have h4: "no_failures (Print (ErrorMoving (name ?f) ?e)) = None"
    by (simp add: no_failures_def)
  have h5: "exists (disk ?w) ?f" by code_simp
  from h1 h2 h3 h4 h5
    organize_loop_move_failure [where env = no_failures and w = ?w and org = ?org
      and category = "''Documents''" and ?fs1.0 = three_disk and clock = example_clock
      and file_path = ?f and destination = "[''out'', ''Documents'', ''b.txt'']"
      and e = ?e and ?fs2.0 = three_disk and rest = ?rest]
  have eq: "organize_loop_io no_failures example_clock False ((?f, ''Documents'') # ?rest) ?org ?w
      = organize_loop_io no_failures (example_clock \<circ> Suc) False ?rest
          (?org\<lparr>errors := errors ?org @ [(name ?f, ?e)]\<rparr>)
          \<lparr>disk = three_disk, out = out ?w @ [ErrorMoving (name ?f) ?e]\<rparr>"
    and kept: "lookup three_disk ?f = lookup (disk ?w) ?f"
    by blast+
  have v: "lookup (disk ?w) ?f = Some (File ''B'')" by code_simp
  have "organize_loop_io no_failures (example_clock \<circ> Suc) False ?rest
          (?org\<lparr>errors := errors ?org @ [(name ?f, ?e)]\<rparr>)
          \<lparr>disk = three_disk, out = out ?w @ [ErrorMoving (name ?f) ?e]\<rparr>
   = (Normal,
      \<lparr>source_dir = [''in''], destination_dir = [''out''],
       moved_files = [(''c.mp3'', ''Music'')],
       errors = [(''b.txt'', PermissionError [''out'', ''Documents'', ''b.txt''])]\<rparr>,
      \<lparr>disk =
         [([''in''], Dir True), ([''in'', ''a.png''], File ''A''),
          ([''in'', ''b.txt''], File ''B''), ([''out''], Dir True),
          ([''out'', ''Documents''], Dir False),
          ([''out'', ''Music''], Dir True),
          ([''out'', ''Music'', ''c.mp3''], File ''C'')],
       out = [ErrorMoving ''b.txt'' (PermissionError [''out'', ''Documents'', ''b.txt'']),
              Moved ''c.mp3'' ''Music'']\<rparr>)"
    by code_simp
  with eq kept v show ?thesis by simp
qed

text \<open>
  The claim as stated fails in two ways. In a run where a move fails and a later directory
  creation raises, \<open>a.txt\<close> cannot be moved and is recorded, then \<^verbatim>\<open>mkdir\<close> finds a
  regular file named \<open>Images\<close> and raises \<^verbatim>\<open>FileExistsError\<close>, and \<open>b.png\<close> and \<open>c.mp3\<close>
  are never processed. On a console that cannot encode the mark of the error line, the
  failure of the move of \<open>a.txt\<close> itself ends the run: the record is made, the print in the
  handler raises \<^verbatim>\<open>UnicodeEncodeError\<close>, and again \<open>b.png\<close> and \<open>c.mp3\<close> are never processed.
\<close>

theorem organize_files_abort_counterexample:
  "iterdir blocked_disk [''in'']
     = Inr [[''in'', ''a.txt''], [''in'', ''b.png''], [''in'', ''c.mp3'']]
   \<and> organize_files_io no_failures example_clock (init [''in''] (Some [''out'']))
        \<lparr>disk = blocked_disk, out = []\<rparr> False
     = (Raised (FileExistsError [''out'', ''Images'']),
        \<lparr>source_dir = [''in''], destination_dir = [''out''], moved_files = [],
         errors = [(''a.txt'', PermissionError [''out'', ''Documents'', ''a.txt''])]\<rparr>,
        \<lparr>disk = blocked_disk,
         out = [Organizing False [''in''], Destination [''out''],
                ErrorMoving ''a.txt'' (PermissionError [''out'', ''Documents'', ''a.txt''])]\<rparr>)
   \<and> organize_files_io ascii_console example_clock (init [''in''] (Some [''out'']))
        \<lparr>disk = blocked_disk, out = []\<rparr> False
     = (Raised (UnicodeEncodeError ''ascii''),
        \<lparr>source_dir = [''in''], destination_dir = [''out''], moved_files = [],
         errors = [(''a.txt'', PermissionError [''out'', ''Documents'', ''a.txt''])]\<rparr>,
        \<lparr>disk = blocked_disk, out = [Organizing False [''in''], Destination [''out'']]\<rparr>)"
  by code_simp

text \<open>
  Two further runs. Below a category directory without search permission the existence
  check of the destination raises \<^verbatim>\<open>PermissionError\<close> outside the \<^verbatim>\<open>try\<close>: the run ends
  and the file has no record. On the ASCII console a file that is moved has its success
  line refused: the handler records a failure for the moved file and its own print ends
  the run.
\<close>

lemma exists_raises_example:
  "organize_files_io locked_documents example_clock (init [''in''] (Some [''out'']))
        \<lparr>disk = inbox_disk, out = []\<rparr> False
     = (Raised (PermissionError [''out'', ''Documents'', ''x.txt'']),
        init [''in''] (Some [''out'']),
        \<lparr>disk = inbox_disk, out = [Organizing False [''in''], Destination [''out'']]\<rparr>)"
  by code_simp

lemma success_line_refused_example:
  "organize_files_io ascii_console example_clock (init [''in''] (Some [''out'']))
        \<lparr>disk = three_disk, out = []\<rparr> False
     = (Raised (UnicodeEncodeError ''ascii''),
        \<lparr>source_dir = [''in''], destination_dir = [''out''],
         moved_files = [(''a.png'', ''Images'')],
         errors = [(''a.png'', UnicodeEncodeError ''ascii'')]\<rparr>,
        \<lparr>disk =
           [([''in''], Dir True), ([''in'', ''b.txt''], File ''B''),
            ([''in'', ''c.mp3''], File ''C''), ([''out''], Dir True),
            ([''out'', ''Documents''], Dir False),
            ([''out'', ''Images''], Dir True),
            ([''out'', ''Images'', ''a.png''], File ''A'')],
         out = [Organizing False [''in''], Destination [''out'']]\<rparr>)"
  by code_simp

lemma organize_one_io_one_record:
  assumes "organize_one_io env now False fc org w = (Normal, org', w')"
    and "\<forall>e. env (Print (Moved (name (fst fc)) (snd fc))) = Some e
              \<longrightarrow> env (Print (ErrorMoving (name (fst fc)) e)) \<noteq> None"
  shows "org' = org\<lparr>moved_files := moved_files org @ [(name (fst fc), snd fc)]\<rparr>
       \<or> (\<exists>e. org' = org\<lparr>errors := errors org @ [(name (fst fc), e)]\<rparr>)"
  using assms
  by (auto simp: organize_one_io_def except_handler_eq Let_def print_io_def
      split: sum.splits prod.splits option.splits)

text \<open>
  The encodings of the standard library that have the mark of the error line also have the
  mark and the arrow of the success line, so that on a console the error line of a file is
  refused whenever its success line is. In such an environment a loop that is not ended
  early makes exactly one record for every file, as it does in the run without failures.
\<close>

lemma organize_loop_io_one_record:
  assumes "organize_loop_io env clock False files org w = (Normal, org', w')"
    and con: "\<forall>n c e. env (Print (Moved n c)) = Some e \<longrightarrow> env (Print (ErrorMoving n e)) \<noteq> None"
  shows "\<exists>ms es. org' = org\<lparr>moved_files := moved_files org @ ms, errors := errors org @ es\<rparr>
           \<and> mset (map fst ms) + mset (map fst es) = mset (map (\<lambda>fc. name (fst fc)) files)"
  using assms(1)
proof (induction files arbitrary: clock org w)
  case Nil
  then show ?case by auto
next
  case (Cons fc files)
  obtain r1 org1 w1 where step: "organize_one_io env (clock 0) False fc org w = (r1, org1, w1)"
    by (metis prod_cases3)
  from step Cons.prems have n: "r1 = Normal" by (cases r1) auto
  with step Cons.prems
  have rest: "organize_loop_io env (clock \<circ> Suc) False files org1 w1 = (Normal, org', w')" by simp
  from Cons.IH [OF rest] obtain ms es where
    o: "org' = org1\<lparr>moved_files := moved_files org1 @ ms, errors := errors org1 @ es\<rparr>"
    and c: "mset (map fst ms) + mset (map fst es) = mset (map (\<lambda>fc. name (fst fc)) files)"
    by blast
  from con have "\<forall>e. env (Print (Moved (name (fst fc)) (snd fc))) = Some e
              \<longrightarrow> env (Print (ErrorMoving (name (fst fc)) e)) \<noteq> None"
    by blast
  from organize_one_io_one_record [OF step [unfolded n] this]
  consider (moved) "org1 = org\<lparr>moved_files := moved_files org @ [(name (fst fc), snd fc)]\<rparr>"
    | (failed) x where "org1 = org\<lparr>errors := errors org @ [(name (fst fc), x)]\<rparr>"
    by auto
  then show ?case
  proof cases
    case moved
    show ?thesis
      by (rule exI [of _ "(name (fst fc), snd fc) # ms"], rule exI [of _ es])
        (use o c moved in auto)
  next
    case failed
    show ?thesis
      by (rule exI [of _ ms], rule exI [of _ "(name (fst fc), x) # es"])
        (use o c failed in auto)
  qed
qed


section \<open>Name collisions\<close>

lemma stem_suffix: "stem p @ suffix p = name p"
  by (simp add: stem_def suffix_def Let_def split: option.splits)

lemma digit_in: "digit d \<in> set ''0123456789''"
proof -
  have "d mod 10 < length ''0123456789''" by simp
  then show ?thesis unfolding digit_def by (rule nth_mem)
qed

lemma strftime_format:
  "length (strftime t) = 15"
  "strftime t ! 8 = CHR ''_''"
  "set (take 8 (strftime t)) \<union> set (drop 9 (strftime t)) \<subseteq> set ''0123456789''"
proof -
  show "length (strftime t) = 15" by (simp add: strftime_def pad4_def pad2_def)
  show "strftime t ! 8 = CHR ''_''" by (simp add: strftime_def pad4_def pad2_def)
  have "set (take 8 (strftime t)) \<union> set (drop 9 (strftime t))
      \<subseteq> range digit"
    by (auto simp: strftime_def pad4_def pad2_def)
  moreover have "range digit \<subseteq> set ''0123456789''"
    using digit_in by blast
  ultimately show "set (take 8 (strftime t)) \<union> set (drop 9 (strftime t)) \<subseteq> set ''0123456789''"
    by (rule subset_trans)
qed

lemma join_simps:
  "(join d a = join d b) = (a = b)" "join d a \<noteq> d" "name (join d a) = a"
  by (simp_all add: join_def name_def)

lemma timestamped_name_differs:
  "stem p @ ''_'' @ strftime t @ suffix p \<noteq> name p"
proof
  assume "stem p @ ''_'' @ strftime t @ suffix p = name p"
  then have "length (stem p @ ''_'' @ strftime t @ suffix p) = length (stem p @ suffix p)"
    by (simp only: stem_suffix)
  then show False by (simp add: strftime_format(1))
qed

lemma collision_step_io:
  assumes cd: "category_dir = join (destination_dir org) category"
    and oc: "occupant = join category_dir (name file_path)"
    and tg: "target = join category_dir (stem file_path @ ''_'' @ strftime now @ suffix file_path)"
    and run: "organize_one_io env now False (file_path, category) org w = (Normal, org', w')"
    and ok: "errors org' = errors org"
    and ex: "exists_io env (disk w) occupant = Inr True"
    and other: "occupant \<noteq> file_path"
    and nd: "\<not> is_dir (disk w) target"
  shows "moved_files org' = moved_files org @ [(name file_path, category)]"
    and "lookup (disk w') occupant = lookup (disk w) occupant"
    and "is_file (disk w) file_path"
    and "lookup (disk w') target = lookup (disk w) file_path"
    and "lookup (disk w') file_path = None"
    and "target \<noteq> occupant"
proof -
  from run ok obtain fs1 destination fs2 where
    mk: "mkdir_io env (disk w) category_dir = Inr fs1"
    and ud: "unique_destination_io env now fs1 category_dir file_path = Inr destination"
    and mv: "shutil_move_io env fs1 file_path destination = (None, fs2)"
    and res: "org' = org\<lparr>moved_files := moved_files org @ [(name file_path, category)]\<rparr>"
      "disk w' = fs2"
    unfolding cd
    by (auto simp: organize_one_io_def except_handler_eq Let_def print_io_def disk_print
        split: sum.splits prod.splits option.splits)
  have lk: "lookup fs1 q
      = (if q = category_dir \<and> \<not> exists (disk w) category_dir then Some (Dir True)
         else lookup (disk w) q)" for q
    by (rule mkdir_io_lookup [OF mk])
  have ne: "occupant \<noteq> category_dir" "target \<noteq> category_dir"
    unfolding oc tg by (simp_all add: join_simps)
  have lo: "lookup fs1 occupant = lookup (disk w) occupant"
    and lt: "lookup fs1 target = lookup (disk w) target"
    using lk ne by simp_all
  from ex have st: "env (Stat occupant) = None" and ex0: "exists (disk w) occupant"
    by (auto simp: exists_io_def split: option.splits if_splits)
  have "exists_io env fs1 (join category_dir (name file_path)) = Inr True"
    using st ex0 lo unfolding oc exists_io_def exists_def by simp
  with ud have ud': "destination = target"
    unfolding tg by (simp add: unique_destination_io_def Let_def)
  have nd1: "\<not> is_dir fs1 target"
    using nd lt by (simp add: is_dir_def)
  show to: "target \<noteq> occupant"
    unfolding oc tg using timestamped_name_differs [of file_path now] by (simp add: join_simps)
  have ft: "file_path \<noteq> target"
  proof
    assume eq: "file_path = target"
    have "name target = stem file_path @ ''_'' @ strftime now @ suffix file_path"
      unfolding tg by (rule join_simps(3))
    with arg_cong [OF eq, of name]
    have "stem file_path @ ''_'' @ strftime now @ suffix file_path = name file_path"
      by (rule trans [symmetric])
    with timestamped_name_differs [of file_path now] show False by (rule notE)
  qed
  from mv ud' have mv': "shutil_move fs1 file_path target = (None, fs2)"
    by (simp add: shutil_move_io_def split: option.splits)
  have l2: "lookup fs2 q
      = (if q = target then lookup fs1 file_path else if q = file_path then None else lookup fs1 q)"
    for q
    by (rule shutil_move_success(1) [OF mv' nd1 ft])
  have f1: "is_file fs1 file_path"
    by (rule shutil_move_success(2) [OF mv' nd1 ft])
  have lf: "lookup fs1 file_path = lookup (disk w) file_path"
    using f1 lk [of file_path] by (auto simp: is_file_def split: if_splits)
  show "is_file (disk w) file_path"
    using f1 lf by (simp add: is_file_def)
  show "moved_files org' = moved_files org @ [(name file_path, category)]"
    using res(1) by simp
  show "lookup (disk w') occupant = lookup (disk w) occupant"
    using l2 [of occupant] to other lo res(2) by simp
  show "lookup (disk w') target = lookup (disk w) file_path"
    using l2 [of target] lf res(2) by simp
  show "lookup (disk w') file_path = None"
    using l2 [of file_path] ft res(2) by simp
qed

lemma move_failure_step_io:
  assumes mk: "mkdir_io env (disk w) (join (destination_dir org) category) = Inr fs1"
    and ud: "unique_destination_io env now fs1 (join (destination_dir org) category) file_path
          = Inr destination"
    and mv: "shutil_move_io env fs1 file_path destination = (Some e, fs2)"
    and run: "organize_one_io env now False (file_path, category) org w = (r, org', w')"
  shows "org' = org\<lparr>errors := errors org @ [(name file_path, e)]\<rparr>"
    and "disk w' = fs2"
    and "exists (disk w) file_path \<longrightarrow> lookup (disk w') file_path = lookup (disk w) file_path"
proof -
  from run have eq: "except_handler env file_path e org (w\<lparr>disk := fs2\<rparr>) = (r, org', w')"
    by (simp add: organize_one_io_def Let_def mk ud mv)
  then show o: "org' = org\<lparr>errors := errors org @ [(name file_path, e)]\<rparr>"
    by (auto simp: except_handler_eq split: option.splits)
  from eq show d: "disk w' = fs2"
    by (auto simp: except_handler_eq split: option.splits)
  have "lookup fs2 file_path = lookup fs1 file_path"
    by (rule shutil_move_io_failure_keeps_source [OF mv])
  moreover have "lookup fs1 file_path = lookup (disk w) file_path" if "exists (disk w) file_path"
    using mkdir_io_lookup [OF mk, of file_path] that by (auto split: if_splits)
  ultimately show "exists (disk w) file_path \<longrightarrow> lookup (disk w') file_path = lookup (disk w) file_path"
    using d by simp
qed

text \<open>
  C2, as amended. When the existence check finds the destination path (category directory
  / original file name) occupied, the file is aimed at the name with the time stamp
  between stem and extension; stem and extension make up the original name and the stamp
  has the form \<open>YYYYMMDD_HHMMSS\<close>. If the move is then recorded as a success, the occupant is
  another entry than the file being moved and the stamped path is not a directory, then
  afterwards the occupant is still in place with its content, the moved file is under the
  stamped name with its own content, it is gone from the source, and the two names differ.
  If the move fails, the file stays in the source as it was and a failure record is
  appended instead of a success record.
\<close>

theorem collision_rename:
  "(exists_io env fs1 (join category_dir (name file_path)) = Inr True
      \<longrightarrow> unique_destination_io env now fs1 category_dir file_path
            = Inr (join category_dir (stem file_path @ ''_'' @ strftime now @ suffix file_path)))
   \<and> stem file_path @ suffix file_path = name file_path
   \<and> length (strftime now) = 15 \<and> strftime now ! 8 = CHR ''_''
   \<and> set (take 8 (strftime now)) \<union> set (drop 9 (strftime now)) \<subseteq> set ''0123456789''
   \<and> (category_dir = join (destination_dir org) category
        \<and> occupant = join category_dir (name file_path)
        \<and> target = join category_dir (stem file_path @ ''_'' @ strftime now @ suffix file_path)
        \<and> organize_one_io env now False (file_path, category) org w = (Normal, org', w')
        \<and> errors org' = errors org
        \<and> exists_io env (disk w) occupant = Inr True
        \<and> occupant \<noteq> file_path \<and> \<not> is_dir (disk w) target
      \<longrightarrow> moved_files org' = moved_files org @ [(name file_path, category)]
          \<and> lookup (disk w') occupant = lookup (disk w) occupant
          \<and> is_file (disk w) file_path
          \<and> lookup (disk w') target = lookup (disk w) file_path
          \<and> lookup (disk w') file_path = None
          \<and> target \<noteq> occupant)
   \<and> (mkdir_io env (disk w) (join (destination_dir org) category) = Inr fs1
        \<and> unique_destination_io env now fs1 (join (destination_dir org) category) file_path
            = Inr destination
        \<and> shutil_move_io env fs1 file_path destination = (Some e, fs2)
        \<and> organize_one_io env now False (file_path, category) org w = (r, org', w')
      \<longrightarrow> org' = org\<lparr>errors := errors org @ [(name file_path, e)]\<rparr>
          \<and> disk w' = fs2
          \<and> (exists (disk w) file_path
               \<longrightarrow> lookup (disk w') file_path = lookup (disk w) file_path))"
proof -
  have a: "exists_io env fs1 (join category_dir (name file_path)) = Inr True
      \<longrightarrow> unique_destination_io env now fs1 category_dir file_path
            = Inr (join category_dir (stem file_path @ ''_'' @ strftime now @ suffix file_path))"
    by (simp add: unique_destination_io_def Let_def)
  have b: "category_dir = join (destination_dir org) category
        \<and> occupant = join category_dir (name file_path)
        \<and> target = join category_dir (stem file_path @ ''_'' @ strftime now @ suffix file_path)
        \<and> organize_one_io env now False (file_path, category) org w = (Normal, org', w')
        \<and> errors org' = errors org
        \<and> exists_io env (disk w) occupant = Inr True
        \<and> occupant \<noteq> file_path \<and> \<not> is_dir (disk w) target
      \<longrightarrow> moved_files org' = moved_files org @ [(name file_path, category)]
          \<and> lookup (disk w') occupant = lookup (disk w) occupant
          \<and> is_file (disk w) file_path
          \<and> lookup (disk w') target = lookup (disk w) file_path
          \<and> lookup (disk w') file_path = None
          \<and> target \<noteq> occupant"
    using collision_step_io [of category_dir org category occupant file_path target now env w org' w']
    by blast
  have c: "mkdir_io env (disk w) (join (destination_dir org) category) = Inr fs1
        \<and> unique_destination_io env now fs1 (join (destination_dir org) category) file_path
            = Inr destination
        \<and> shutil_move_io env fs1 file_path destination = (Some e, fs2)
        \<and> organize_one_io env now False (file_path, category) org w = (r, org', w')
      \<longrightarrow> org' = org\<lparr>errors := errors org @ [(name file_path, e)]\<rparr>
          \<and> disk w' = fs2
          \<and> (exists (disk w) file_path
               \<longrightarrow> lookup (disk w') file_path = lookup (disk w) file_path)"
    using move_failure_step_io [of env w org category fs1 now file_path destination e fs2 r org' w']
    by blast
  have d: "stem file_path @ suffix file_path = name file_path"
    "length (strftime now) = 15" "strftime now ! 8 = CHR ''_''"
    "set (take 8 (strftime now)) \<union> set (drop 9 (strftime now)) \<subseteq> set ''0123456789''"
    by (rule stem_suffix, rule strftime_format(1), rule strftime_format(2), rule strftime_format(3))
  show ?thesis
    by (intro conjI) (rule a, rule d(1), rule d(2), rule d(3), rule d(4), rule b, rule c)
qed

theorem collision_rename_witness:
  "strftime (example_clock 0) = ''20240131_235959''
   \<and> organize_one_io no_failures (example_clock 0) False ([''in'', ''x.txt''], ''Documents'')
       (init [''in''] (Some [''out''])) \<lparr>disk = inbox_disk, out = []\<rparr>
     = (Normal, used_organizer,
        \<lparr>disk =
           [([''in''], Dir True), ([''out''], Dir True),
            ([''out'', ''Documents''], Dir True),
            ([''out'', ''Documents'', ''x.txt''], File ''old''),
            ([''out'', ''Documents'', ''x_20240131_235959.txt''], File ''new'')],
         out = [Moved ''x.txt'' ''Documents'']\<rparr>)
   \<and> lookup inbox_disk [''out'', ''Documents'', ''x.txt''] = Some (File ''old'')
   \<and> lookup
        [([''in''], Dir True), ([''out''], Dir True),
         ([''out'', ''Documents''], Dir True),
         ([''out'', ''Documents'', ''x.txt''], File ''old''),
         ([''out'', ''Documents'', ''x_20240131_235959.txt''], File ''new'')]
        [''out'', ''Documents'', ''x.txt''] = lookup inbox_disk [''out'', ''Documents'', ''x.txt'']
   \<and> lookup
        [([''in''], Dir True), ([''out''], Dir True),
         ([''out'', ''Documents''], Dir True),
         ([''out'', ''Documents'', ''x.txt''], File ''old''),
         ([''out'', ''Documents'', ''x_20240131_235959.txt''], File ''new'')]
        [''out'', ''Documents'', ''x_20240131_235959.txt''] = lookup inbox_disk [''in'', ''x.txt'']
   \<and> fst (snd (organize_one_io no_failures (example_clock 0) False
                  ([''in'', ''x.txt''], ''Documents'')
                  (init [''in''] (Some [''out''])) \<lparr>disk = readonly_disk, out = []\<rparr>))
       = (init [''in''] (Some [''out'']))
           \<lparr>errors := errors (init [''in''] (Some [''out''])) @
              [(name [''in'', ''x.txt''],
                PermissionError [''out'', ''Documents'', ''x_20240131_235959.txt''])]\<rparr>
   \<and> lookup readonly_disk [''in'', ''x.txt''] = Some (File ''new'')"
proof -
  let ?org = "init [''in''] (Some [''out''])" and ?w = "\<lparr>disk = inbox_disk, out = []\<rparr>"
  let ?f = "[''in'', ''x.txt'']"
  let ?cd = "[''out'', ''Documents'']"
  let ?oc = "[''out'', ''Documents'', ''x.txt'']"
  let ?tg = "[''out'', ''Documents'', ''x_20240131_235959.txt'']"
  let ?d' = "[([''in''], Dir True), ([''out''], Dir True),
            ([''out'', ''Documents''], Dir True),
            ([''out'', ''Documents'', ''x.txt''], File ''old''),
            ([''out'', ''Documents'', ''x_20240131_235959.txt''], File ''new'')]"
  let ?w' = "\<lparr>disk = ?d', out = [Moved ''x.txt'' ''Documents'']\<rparr>"
  let ?v = "\<lparr>disk = readonly_disk, out = []\<rparr>"
  let ?e = "PermissionError ?tg"
  let ?run = "organize_one_io no_failures (example_clock 0) False (?f, ''Documents'') ?org ?v"
  have ts: "strftime (example_clock 0) = ''20240131_235959''"
    by code_simp
  have h1: "?cd = join (destination_dir ?org) ''Documents''" by code_simp
  have h2: "?oc = join ?cd (name ?f)" by code_simp
  have h3: "?tg = join ?cd (stem ?f @ ''_'' @ strftime (example_clock 0) @ suffix ?f)"
    by code_simp
  have h4: "organize_one_io no_failures (example_clock 0) False (?f, ''Documents'') ?org ?w
      = (Normal, used_organizer, ?w')"
    by code_simp
  have h5: "errors used_organizer = errors ?org" by code_simp
  have h6: "exists_io no_failures (disk ?w) ?oc = Inr True" by code_simp
  have h7: "?oc \<noteq> ?f" by simp
  have h8: "\<not> is_dir (disk ?w) ?tg" by code_simp
  have old: "lookup inbox_disk ?oc = Some (File ''old'')" by code_simp
  from h1 h2 h3 h4 h5 h6 h7 h8
    collision_rename [where category_dir = ?cd and org = ?org and category = "''Documents''"
      and occupant = ?oc and file_path = ?f and target = ?tg and now = "example_clock 0"
      and env = no_failures and w = ?w and org' = used_organizer and w' = ?w']
  have "lookup (disk ?w') ?oc = lookup (disk ?w) ?oc
      \<and> lookup (disk ?w') ?tg = lookup (disk ?w) ?f"
    by blast
  then have s: "lookup ?d' ?oc = lookup inbox_disk ?oc \<and> lookup ?d' ?tg = lookup inbox_disk ?f"
    by simp
  have k1: "mkdir_io no_failures (disk ?v) (join (destination_dir ?org) ''Documents'')
      = Inr readonly_disk"
    by code_simp
  have k2: "unique_destination_io no_failures (example_clock 0) readonly_disk
      (join (destination_dir ?org) ''Documents'') ?f = Inr ?tg"
    by code_simp
  have k3: "shutil_move_io no_failures readonly_disk ?f ?tg = (Some ?e, readonly_disk)"
    by code_simp
  have k4: "?run = (fst ?run, fst (snd ?run), snd (snd ?run))" by simp
  from k1 k2 k3 k4
    collision_rename [where env = no_failures and org = ?org and category = "''Documents''"
      and file_path = ?f and now = "example_clock 0" and w = ?v and ?fs1.0 = readonly_disk
      and destination = ?tg and e = ?e and ?fs2.0 = readonly_disk
      and r = "fst ?run" and org' = "fst (snd ?run)" and w' = "snd (snd ?run)"]
  have f: "fst (snd ?run) = ?org\<lparr>errors := errors ?org @ [(name ?f, ?e)]\<rparr>"
    by blast
  have src: "lookup readonly_disk ?f = Some (File ''new'')" by code_simp
  from ts h4 old s f src show ?thesis by blast
qed

text \<open>
  C2 as stated fails when the move itself fails: with a read-only category directory the
  destination is occupied, the run ends normally with a failure record, and no file exists
  under the stamped name.
\<close>

theorem collision_move_fails_counterexample:
  "exists readonly_disk [''out'', ''Documents'', ''x.txt'']
   \<and> organize_files_io no_failures example_clock (init [''in''] (Some [''out'']))
        \<lparr>disk = readonly_disk, out = []\<rparr> False
     = (Normal,
        \<lparr>source_dir = [''in''], destination_dir = [''out''], moved_files = [],
         errors = [(''x.txt'',
                    PermissionError [''out'', ''Documents'', ''x_20240131_235959.txt''])]\<rparr>,
        \<lparr>disk = readonly_disk,
         out = [Organizing False [''in''], Destination [''out''],
                ErrorMoving ''x.txt''
                  (PermissionError [''out'', ''Documents'', ''x_20240131_235959.txt'']),
                Rule, OrganizationComplete, FilesMoved 0, Errors 1,
                ErrorItem ''x.txt''
                  (PermissionError [''out'', ''Documents'', ''x_20240131_235959.txt''])]\<rparr>)
   \<and> lookup readonly_disk [''out'', ''Documents'', ''x_20240131_235959.txt''] = None"
  by code_simp

text \<open>
  Two further runs show why the amended statement asks that the occupant is another entry
  and that the stamped path is not a directory: a file organised inside its own category
  directory collides with itself and is renamed in place, and a directory under the stamped
  name receives the file under its original name.
\<close>

lemma collision_with_itself_example:
  "exists inbox_disk [''out'', ''Documents'', ''x.txt'']
   \<and> disk (snd (snd (organize_files_io no_failures example_clock
        (init [''out'', ''Documents''] (Some [''out'']))
        \<lparr>disk = inbox_disk, out = []\<rparr> False)))
     = [([''in''], Dir True), ([''in'', ''x.txt''], File ''new''),
        ([''out''], Dir True), ([''out'', ''Documents''], Dir True),
        ([''out'', ''Documents'', ''x_20240131_235959.txt''], File ''old'')]"
  by code_simp

lemma collision_into_directory_example:
  "disk (snd (snd (organize_files_io no_failures example_clock (init [''in''] (Some [''out'']))
        \<lparr>disk = nested_disk, out = []\<rparr> False)))
     = [([''in''], Dir True), ([''out''], Dir True),
        ([''out'', ''Documents''], Dir True),
        ([''out'', ''Documents'', ''x.txt''], File ''old''),
        ([''out'', ''Documents'', ''x_20240131_235959.txt''], Dir True),
        ([''out'', ''Documents'', ''x_20240131_235959.txt'', ''x.txt''], File ''new'')]"
  by code_simp

end
